theory Spec2Isabelle
  imports Main
begin

section \<open>Common types\<close>

text \<open>An OpId is a (term, index) pair of 64-bit signed integers (\<open>term\<close> is a
  reserved word here, so the fields carry the prefix \<open>op_\<close>). The modelled code only
  compares and copies op ids, apart from \<open>index - 1\<close> and \<open>index + 1\<close> on indices of
  log entries, so they are modelled as unbounded integers.\<close>

record OpId =
  op_term :: int
  op_index :: int

text \<open>A \<open>Status\<close> is \<open>OK\<close> or an error of some kind; the message text is dropped.
  A \<open>Result<T>\<close> is the sum \<open>ErrorCode + T\<close>.\<close>

datatype ErrorCode =
  NotFound | Corruption | NotSupported | InvalidArgument | IOError | IllegalState
  | ServiceUnavailable | TimedOut | Aborted | RemoteError

datatype Status = OK | Error ErrorCode

section \<open>TabletPeer: the earliest log index that must be retained\<close>

text \<open>What \<open>TabletPeer::GetEarliestNeededLogIndex\<close> (tablet\_peer.cc) reads from its
  collaborators, each named after the call that yields it.\<close>

record TabletPeerView =
  GetLatestEntryOpId :: OpId
  GetEarliestRegisteredLogIndex :: "ErrorCode + int"
  GetPendingOperations :: "OpId option list"
  transaction_coordinator :: "int option"
  last_committed_write_index :: int
  MaxPersistentOpId :: "ErrorCode + OpId"
  GetLastOpId_COMMITTED :: "ErrorCode + OpId"

text \<open>The loop over the operation tracker's drivers: a driver whose op id is not
  initialized (\<open>None\<close>) is skipped.\<close>

fun min_over_drivers :: "int \<Rightarrow> OpId option list \<Rightarrow> int" where
  "min_over_drivers min_index [] = min_index"
| "min_over_drivers min_index (None # drivers) = min_over_drivers min_index drivers"
| "min_over_drivers min_index (Some tx_op_id # drivers) =
     min_over_drivers (min min_index (op_index tx_op_id)) drivers"

text \<open>The function returns its status and the value left in \<open>*min_index\<close>, which is
  written also on the error paths.\<close>

definition GetEarliestNeededLogIndex :: "TabletPeerView \<Rightarrow> Status \<times> int" where
  "GetEarliestNeededLogIndex v =
    (let min_index = op_index (GetLatestEntryOpId v) in
     if min_index = 0 then (OK, min_index)
     else
       let min_index =
             (case GetEarliestRegisteredLogIndex v of
                Inl s \<Rightarrow> min_index
              | Inr min_anchor_index \<Rightarrow> min min_index min_anchor_index);
           min_index = min_over_drivers min_index (GetPendingOperations v);
           min_index =
             (case transaction_coordinator v of
                None \<Rightarrow> min_index
              | Some prepare_gc \<Rightarrow> min min_index prepare_gc)
       in case MaxPersistentOpId v of
            Inl e \<Rightarrow> (Error e, min_index)
          | Inr max_persistent_op_id \<Rightarrow>
              let max_persistent_index = op_index max_persistent_op_id;
                  min_index =
                    (if max_persistent_index < last_committed_write_index v
                     then min min_index max_persistent_index else min_index)
              in case GetLastOpId_COMMITTED v of
                   Inl NotFound \<Rightarrow> (OK, min_index)
                 | Inl e \<Rightarrow> (Error e, min_index)
                 | Inr committed_op_id \<Rightarrow> (OK, min min_index (op_index committed_op_id)))"

text \<open>The retention bounds as the specification lists them: the candidates whose
  minimum is to be returned when the log is not empty.\<close>

fun assigned_indices :: "OpId option list \<Rightarrow> int list" where
  "assigned_indices [] = []"
| "assigned_indices (None # drivers) = assigned_indices drivers"
| "assigned_indices (Some tx_op_id # drivers) = op_index tx_op_id # assigned_indices drivers"

definition retention_candidates :: "TabletPeerView \<Rightarrow> int list" where
  "retention_candidates v =
     op_index (GetLatestEntryOpId v)
     # (case GetEarliestRegisteredLogIndex v of Inl s \<Rightarrow> [] | Inr a \<Rightarrow> [a])
     @ assigned_indices (GetPendingOperations v)
     @ (case transaction_coordinator v of None \<Rightarrow> [] | Some g \<Rightarrow> [g])
     @ (case MaxPersistentOpId v of
          Inl e \<Rightarrow> []
        | Inr p \<Rightarrow> if op_index p < last_committed_write_index v then [op_index p] else [])
     @ (case GetLastOpId_COMMITTED v of Inl e \<Rightarrow> [] | Inr c \<Rightarrow> [op_index c])"

lemma min_over_drivers_fold:
  "min_over_drivers m ds = fold min (assigned_indices ds) m"
  by (induction m ds rule: min_over_drivers.induct) (simp_all add: min.commute)

lemma Min_candidates_fold:
  "Min (set (retention_candidates v)) =
     fold min (tl (retention_candidates v)) (op_index (GetLatestEntryOpId v))"
  unfolding retention_candidates_def list.sel by (rule Min.set_eq_fold)

lemma anchor_step:
  "(case x of Inl s \<Rightarrow> m | Inr a \<Rightarrow> min m a) =
     fold min (case x of Inl s \<Rightarrow> [] | Inr a \<Rightarrow> [a]) (m::int)"
  by (simp add: min.commute split: sum.split)

lemma coordinator_step:
  "(case x of None \<Rightarrow> m | Some a \<Rightarrow> min m a) =
     fold min (case x of None \<Rightarrow> [] | Some a \<Rightarrow> [a]) (m::int)"
  by (simp add: min.commute split: option.split)

lemma persistent_step:
  "(if b then min m a else m) = fold min (if b then [a] else []) (m::int)"
  by (simp add: min.commute)

lemma GetEarliestNeededLogIndex_fold:
  assumes ok: "GetEarliestNeededLogIndex v = (OK, m)"
    and nz: "op_index (GetLatestEntryOpId v) \<noteq> 0"
  shows "m = fold min (tl (retention_candidates v)) (op_index (GetLatestEntryOpId v))"
proof (cases "MaxPersistentOpId v")
  case (Inl e)
  with ok nz show ?thesis by (simp add: GetEarliestNeededLogIndex_def Let_def)
next
  case persistent: (Inr p)
  show ?thesis
  proof (cases "GetLastOpId_COMMITTED v")
    case (Inr c)
    have "snd (GetEarliestNeededLogIndex v) =
            fold min (tl (retention_candidates v)) (op_index (GetLatestEntryOpId v))"
      unfolding GetEarliestNeededLogIndex_def Let_def retention_candidates_def
        anchor_step coordinator_step persistent_step min_over_drivers_fold
      using nz persistent Inr by (simp add: min.commute)
    with ok show ?thesis by simp
  next
    case (Inl e)
    have "e = NotFound"
      using ok nz persistent Inl
      by (cases e) (simp_all add: GetEarliestNeededLogIndex_def Let_def)
    have "snd (GetEarliestNeededLogIndex v) =
            fold min (tl (retention_candidates v)) (op_index (GetLatestEntryOpId v))"
      unfolding GetEarliestNeededLogIndex_def Let_def retention_candidates_def
        anchor_step coordinator_step persistent_step min_over_drivers_fold
      using nz persistent Inl \<open>e = NotFound\<close> by simp
    with ok show ?thesis by simp
  qed
qed

text \<open>C7. When GetEarliestNeededLogIndex returns OK, the index it returns is the latest log
  entry's index alone (0) if the log is empty, and otherwise the minimum of the latest log
  entry's index, the earliest registered anchor (if any), the op-id indices of the in-flight
  drivers that have an op id, the transaction coordinator's PrepareGC horizon (if there is a
  coordinator), the max-persistent index when it is strictly below the
  last-committed-write-index, and the committed op id's index (when consensus reports one).\<close>

theorem GetEarliestNeededLogIndex_is_minimum:
  assumes "GetEarliestNeededLogIndex v = (OK, m)"
  shows "m = (if op_index (GetLatestEntryOpId v) = 0 then 0
              else Min (set (retention_candidates v)))"
proof (cases "op_index (GetLatestEntryOpId v) = 0")
  case True
  with assms show ?thesis by (simp add: GetEarliestNeededLogIndex_def)
next
  case False
  with GetEarliestNeededLogIndex_fold [OF assms] show ?thesis
    by (simp add: Min_candidates_fold)
qed

theorem GetEarliestNeededLogIndex_is_minimum_witness:
  "GetEarliestNeededLogIndex
     \<lparr>GetLatestEntryOpId = \<lparr>op_term = 2, op_index = 40\<rparr>,
      GetEarliestRegisteredLogIndex = Inr 35,
      GetPendingOperations = [None, Some \<lparr>op_term = 2, op_index = 38\<rparr>],
      transaction_coordinator = Some 37,
      last_committed_write_index = 39,
      MaxPersistentOpId = Inr \<lparr>op_term = 2, op_index = 33\<rparr>,
      GetLastOpId_COMMITTED = Inr \<lparr>op_term = 2, op_index = 36\<rparr>\<rparr> = (OK, 33)
   \<and> (33::int) = Min (set [40, 35, 38, 37, 33, 36])"
proof -
  let ?v = "\<lparr>GetLatestEntryOpId = \<lparr>op_term = 2, op_index = 40\<rparr>,
      GetEarliestRegisteredLogIndex = Inr 35,
      GetPendingOperations = [None, Some \<lparr>op_term = 2, op_index = 38\<rparr>],
      transaction_coordinator = Some 37,
      last_committed_write_index = 39,
      MaxPersistentOpId = Inr \<lparr>op_term = 2, op_index = 33\<rparr>,
      GetLastOpId_COMMITTED = Inr \<lparr>op_term = 2, op_index = 36\<rparr>\<rparr>"
  have run: "GetEarliestNeededLogIndex ?v = (OK, 33)"
    by (simp add: GetEarliestNeededLogIndex_def)
  have cand: "retention_candidates ?v = [40, 35, 38, 37, 33, 36]"
    by (simp add: retention_candidates_def)
  from GetEarliestNeededLogIndex_is_minimum [OF run] cand run show ?thesis by simp
qed

section \<open>Preparer: flushing the leader-side batch\<close>

datatype ('d, 'r) PreparerCall =
    CallPrepareAndStart 'd
  | CallReplicateBatch "'r list"
  | CallSetReplicationFailed 'd Status
  | CallHandleFailure 'd Status

record ('d, 'r) PreparerEnv =
  PrepareAndStart :: "'d \<Rightarrow> Status"
  consensus_round :: "'d \<Rightarrow> 'r"
  ReplicateBatch :: "'r list \<Rightarrow> Status"

definition ReplicateSubBatch ::
  "('d, 'r) PreparerEnv \<Rightarrow> 'd list \<Rightarrow> nat \<Rightarrow> nat \<Rightarrow> ('d, 'r) PreparerCall list" where
  "ReplicateSubBatch env batch batch_begin batch_end =
     (if batch_begin = batch_end then []
      else
        let sub_batch = take (batch_end - batch_begin) (drop batch_begin batch);
            rounds_to_replicate = map (consensus_round env) sub_batch;
            s = ReplicateBatch env rounds_to_replicate
        in CallReplicateBatch rounds_to_replicate #
           (if s \<noteq> OK
            then concat (map (\<lambda>d. [CallSetReplicationFailed d s, CallHandleFailure d s]) sub_batch)
            else []))"

function process_batch_loop ::
  "('d, 'r) PreparerEnv \<Rightarrow> 'd list \<Rightarrow> nat \<Rightarrow> nat \<Rightarrow> nat \<Rightarrow> ('d, 'r) PreparerCall list" where
  "process_batch_loop env batch iter replication_subbatch_begin replication_subbatch_end =
     (if iter < length batch then
        CallPrepareAndStart (batch ! iter) #
        (if PrepareAndStart env (batch ! iter) = OK
         then process_batch_loop env batch (Suc iter) replication_subbatch_begin (Suc iter)
         else ReplicateSubBatch env batch replication_subbatch_begin replication_subbatch_end
              @ CallHandleFailure (batch ! iter) (PrepareAndStart env (batch ! iter))
              # process_batch_loop env batch (Suc iter) (Suc iter) (Suc iter))
      else ReplicateSubBatch env batch replication_subbatch_begin replication_subbatch_end)"
  by pat_completeness auto
termination
  by (relation "measure (\<lambda>(env, batch, iter, b, e). length batch - iter)") auto

declare process_batch_loop.simps [simp del]

definition ProcessAndClearLeaderSideBatch ::
  "('d, 'r) PreparerEnv \<Rightarrow> 'd list \<Rightarrow> ('d, 'r) PreparerCall list \<times> 'd list" where
  "ProcessAndClearLeaderSideBatch env leader_side_batch =
     (if leader_side_batch = [] then ([], leader_side_batch)
      else (process_batch_loop env leader_side_batch 0 0 0, []))"

definition replicate_run :: "('d, 'r) PreparerEnv \<Rightarrow> 'd list \<Rightarrow> ('d, 'r) PreparerCall list" where
  "replicate_run env run =
     (if run = [] then []
      else CallReplicateBatch (map (consensus_round env) run) #
           (case ReplicateBatch env (map (consensus_round env) run) of
              OK \<Rightarrow> []
            | Error e \<Rightarrow> concat (map (\<lambda>d. [CallSetReplicationFailed d (Error e),
                                            CallHandleFailure d (Error e)]) run)))"

function flush_by_runs :: "('d, 'r) PreparerEnv \<Rightarrow> 'd list \<Rightarrow> ('d, 'r) PreparerCall list" where
  "flush_by_runs env items =
     map CallPrepareAndStart (takeWhile (\<lambda>d. PrepareAndStart env d = OK) items) @
     (case dropWhile (\<lambda>d. PrepareAndStart env d = OK) items of
        [] \<Rightarrow> replicate_run env (takeWhile (\<lambda>d. PrepareAndStart env d = OK) items)
      | failed # rest \<Rightarrow>
          CallPrepareAndStart failed
          # replicate_run env (takeWhile (\<lambda>d. PrepareAndStart env d = OK) items)
          @ CallHandleFailure failed (PrepareAndStart env failed)
          # flush_by_runs env rest)"
  by pat_completeness auto
termination
proof (relation "measure (\<lambda>(env, items). length items)")
  show "wf (measure (\<lambda>(env, items). length items))" by simp
next
  fix env :: "('d, 'r) PreparerEnv" and items failed rest
  assume "dropWhile (\<lambda>d. PrepareAndStart env d = OK) items = failed # rest"
  then have "length (failed # rest) \<le> length items"
    by (metis length_dropWhile_le)
  then show "((env, rest), (env, items)) \<in> measure (\<lambda>(env, items). length items)"
    by simp
qed

declare flush_by_runs.simps [simp del]

text \<open>The drivers on which PrepareAndStart was called, in call order.\<close>

fun prepare_calls :: "('d, 'r) PreparerCall list \<Rightarrow> 'd list" where
  "prepare_calls [] = []"
| "prepare_calls (CallPrepareAndStart d # cs) = d # prepare_calls cs"
| "prepare_calls (c # cs) = prepare_calls cs"

text \<open>The loop of the code restated on lists: the current sub-batch is carried as an
  accumulator. It links the iterator loop to \<open>flush_by_runs\<close>.\<close>

fun flush_with_run :: "('d, 'r) PreparerEnv \<Rightarrow> 'd list \<Rightarrow> 'd list \<Rightarrow> ('d, 'r) PreparerCall list" where
  "flush_with_run env run [] = replicate_run env run"
| "flush_with_run env run (d # ds) =
     CallPrepareAndStart d #
     (if PrepareAndStart env d = OK then flush_with_run env (run @ [d]) ds
      else replicate_run env run @ CallHandleFailure d (PrepareAndStart env d)
           # flush_with_run env [] ds)"

lemma ReplicateSubBatch_run:
  "b \<le> e \<Longrightarrow> e \<le> length batch \<Longrightarrow>
   ReplicateSubBatch env batch b e = replicate_run env (take (e - b) (drop b batch))"
  by (cases "ReplicateBatch env (map (consensus_round env) (take (e - b) (drop b batch)))")
     (auto simp: ReplicateSubBatch_def replicate_run_def Let_def)

lemma slice_Suc:
  "b \<le> i \<Longrightarrow> i < length batch \<Longrightarrow>
   take (Suc i - b) (drop b batch) = take (i - b) (drop b batch) @ [batch ! i]"
  by (simp add: Suc_diff_le take_Suc_conv_app_nth)

lemma loop_flush_with_run:
  "b \<le> i \<Longrightarrow> i \<le> length batch \<Longrightarrow>
   process_batch_loop env batch i b i = flush_with_run env (take (i - b) (drop b batch)) (drop i batch)"
proof (induction "length batch - i" arbitrary: i b)
  case 0
  then show ?case
    by (subst process_batch_loop.simps) (simp add: ReplicateSubBatch_run)
next
  case (Suc n)
  then have lt: "i < length batch" by simp
  then have dr: "drop i batch = batch ! i # drop (Suc i) batch"
    by (simp add: Cons_nth_drop_Suc)
  have n: "n = length batch - Suc i" using Suc.hyps(2) by simp
  have ih1: "process_batch_loop env batch (Suc i) b (Suc i) =
      flush_with_run env (take (Suc i - b) (drop b batch)) (drop (Suc i) batch)"
    using Suc.hyps(1) [OF n, of b] Suc.prems lt by simp
  have ih2: "process_batch_loop env batch (Suc i) (Suc i) (Suc i) =
      flush_with_run env [] (drop (Suc i) batch)"
    using Suc.hyps(1) [OF n, of "Suc i"] lt by simp
  show ?case
    using lt Suc.prems
    by (subst process_batch_loop.simps)
       (simp add: dr ih1 ih2 slice_Suc ReplicateSubBatch_run)
qed

lemma flush_with_run_takeWhile:
  "flush_with_run env run items =
     map CallPrepareAndStart (takeWhile (\<lambda>d. PrepareAndStart env d = OK) items) @
     (case dropWhile (\<lambda>d. PrepareAndStart env d = OK) items of
        [] \<Rightarrow> replicate_run env (run @ takeWhile (\<lambda>d. PrepareAndStart env d = OK) items)
      | failed # rest \<Rightarrow>
          CallPrepareAndStart failed
          # replicate_run env (run @ takeWhile (\<lambda>d. PrepareAndStart env d = OK) items)
          @ CallHandleFailure failed (PrepareAndStart env failed)
          # flush_with_run env [] rest)"
proof (induction items arbitrary: run)
  case Nil
  show ?case by simp
next
  case (Cons a items)
  show ?case
  proof (cases "PrepareAndStart env a = OK")
    case True
    have "flush_with_run env run (a # items) =
            CallPrepareAndStart a # flush_with_run env (run @ [a]) items"
      using True by simp
    then show ?thesis
      unfolding Cons.IH [of "run @ [a]"] using True by (simp cong: list.case_cong)
  next
    case False
    then show ?thesis by simp
  qed
qed

lemma flush_with_run_Nil: "flush_with_run env [] items = flush_by_runs env items"
proof (induction env items rule: flush_by_runs.induct)
  case (1 env items)
  show ?case
  proof (cases "dropWhile (\<lambda>d. PrepareAndStart env d = OK) items")
    case Nil
    show ?thesis
      by (subst flush_with_run_takeWhile, subst flush_by_runs.simps)
         (simp only: Nil list.case append_Nil)
  next
    case (Cons failed rest)
    show ?thesis
      by (subst flush_with_run_takeWhile, subst flush_by_runs.simps)
         (simp only: Cons list.case append_Nil 1 [OF Cons])
  qed
qed

lemma prepare_calls_append:
  "prepare_calls (xs @ ys) = prepare_calls xs @ prepare_calls ys"
  by (induction xs rule: prepare_calls.induct) simp_all

lemma prepare_calls_failed:
  "prepare_calls (concat (map (\<lambda>d. [CallSetReplicationFailed d s, CallHandleFailure d s]) run)) = []"
  by (induction run) simp_all

lemma prepare_calls_replicate_run: "prepare_calls (replicate_run env run) = []"
  by (cases "ReplicateBatch env (map (consensus_round env) run)")
     (simp_all add: replicate_run_def prepare_calls_failed)

lemma prepare_calls_flush_with_run:
  "prepare_calls (flush_with_run env run items) = items"
  by (induction items arbitrary: run)
     (simp_all add: prepare_calls_replicate_run prepare_calls_append)

text \<open>C6. Flushing a leader-side batch calls PrepareAndStart on every item in order; each
  maximal run of consecutively successful items is one sub-batch; at a failed item the
  accumulated sub-batch is replicated (a call of ReplicateBatch when it is not empty), then
  the failed item's failure handler runs, and processing continues with the next item; the
  tail sub-batch is replicated after the iteration; and when ReplicateBatch returns an error
  every item of that sub-batch is marked failed and handled with that status. The batch is
  empty afterwards.\<close>

theorem ProcessAndClearLeaderSideBatch_flushes_by_runs:
  "ProcessAndClearLeaderSideBatch env batch = (flush_by_runs env batch, [])
   \<and> prepare_calls (fst (ProcessAndClearLeaderSideBatch env batch)) = batch"
proof -
  have loop: "process_batch_loop env batch 0 0 0 = flush_with_run env [] batch"
    using loop_flush_with_run [of 0 0 batch env] by simp
  have eq: "ProcessAndClearLeaderSideBatch env batch = (flush_by_runs env batch, [])"
  proof (cases "batch = []")
    case True
    then show ?thesis
      by (simp add: ProcessAndClearLeaderSideBatch_def replicate_run_def flush_by_runs.simps)
  next
    case False
    with loop show ?thesis
      by (simp add: ProcessAndClearLeaderSideBatch_def flush_with_run_Nil)
  qed
  have "prepare_calls (flush_by_runs env batch) = batch"
    using prepare_calls_flush_with_run [of env "[]" batch]
    by (simp add: flush_with_run_Nil)
  with eq show ?thesis by simp
qed

theorem ProcessAndClearLeaderSideBatch_flushes_by_runs_witness:
  "ProcessAndClearLeaderSideBatch
     \<lparr>PrepareAndStart = (\<lambda>d. if d = (3::nat) then Error IllegalState else OK),
      consensus_round = (\<lambda>d. d + 100),
      ReplicateBatch = (\<lambda>rs. if rs = [104, 105] then Error ServiceUnavailable else OK)\<rparr>
     [1, 2, 3, 4, 5]
   = ([CallPrepareAndStart 1, CallPrepareAndStart 2, CallPrepareAndStart 3,
       CallReplicateBatch [101, 102],
       CallHandleFailure 3 (Error IllegalState),
       CallPrepareAndStart 4, CallPrepareAndStart 5,
       CallReplicateBatch [104, 105],
       CallSetReplicationFailed 4 (Error ServiceUnavailable),
       CallHandleFailure 4 (Error ServiceUnavailable),
       CallSetReplicationFailed 5 (Error ServiceUnavailable),
       CallHandleFailure 5 (Error ServiceUnavailable)], [])"
  using ProcessAndClearLeaderSideBatch_flushes_by_runs
    [of "\<lparr>PrepareAndStart = (\<lambda>d. if d = (3::nat) then Error IllegalState else OK),
      consensus_round = (\<lambda>d. d + 100),
      ReplicateBatch = (\<lambda>rs. if rs = [104, 105] then Error ServiceUnavailable else OK)\<rparr>"
        "[1, 2, 3, 4, 5]"]
  by (simp add: flush_by_runs.simps replicate_run_def)

section \<open>Peer: the per-follower sender\<close>

datatype RequestTriggerMode = ALWAYS_SEND | NON_EMPTY_ONLY

datatype PeerState = kPeerCreated | kPeerStarted | kPeerRunning | kPeerClosed

datatype MemberType = UNKNOWN_MEMBER_TYPE | PRE_VOTER | VOTER | PRE_OBSERVER | OBSERVER

text \<open>The fields of a \<open>Peer\<close> that \<open>SignalRequest\<close> and \<open>SendNextRequest\<close> read or
  write: the single-permit semaphore \<open>sem_\<close> (its value), the lifecycle state, the count
  of failed attempts, and the parts of the reused \<open>request_\<close> buffer that matter (its ops
  and its optional committed index).\<close>

record 'm Peer =
  sem :: int
  state :: PeerState
  failed_attempts :: int
  request_ops :: "'m list"
  request_committed_index :: "OpId option"

text \<open>What the collaborators answer during one call: the queue's \<open>RequestForPeer\<close>
  (its status, the ops and committed index it leaves in the request, and its three output
  flags), the thread pool's \<open>SubmitClosure\<close>, whether remote bootstrap is enabled and
  whether the queue can build a bootstrap request, whether \<open>consensus_\<close> is set and
  what its \<open>ChangeConfig\<close> returns.\<close>

record 'm PeerEnv =
  RequestForPeer_status :: Status
  RequestForPeer_ops :: "'m list"
  RequestForPeer_committed_index :: "OpId option"
  needs_remote_bootstrap :: bool
  RequestForPeer_member_type :: MemberType
  last_exchange_successful :: bool
  SubmitClosure :: Status
  enable_remote_bootstrap :: bool
  GetRemoteBootstrapRequestForPeer :: Status
  has_consensus :: bool
  ChangeConfig_CHANGE_ROLE :: Status

text \<open>The outward actions of a call, in order.\<close>

datatype PeerAction =
    SubmitSendNextRequest RequestTriggerMode
  | StartRemoteBootstrap
  | CallChangeConfig
  | HeartbeaterReset
  | UpdateAsync

text \<open>Modelled from the spec: the constant \<open>kMinimumOpIdIndex\<close> is declared outside the
  given sources; the specification gives the minimum op id the index 0.\<close>

definition kMinimumOpIdIndex :: int where
  "kMinimumOpIdIndex = 0"

definition Release :: "'m Peer \<Rightarrow> 'm Peer" where
  "Release p = p\<lparr>sem := sem p + 1\<rparr>"

definition SignalRequest ::
  "'m PeerEnv \<Rightarrow> 'm Peer \<Rightarrow> RequestTriggerMode \<Rightarrow> Status \<times> 'm Peer \<times> PeerAction list" where
  "SignalRequest env p trigger_mode =
     (if \<not> 0 < sem p then (OK, p, [])
      else
        let p = p\<lparr>sem := sem p - 1\<rparr> in
        if state p = kPeerClosed then (Error IllegalState, Release p, [])
        else
          let started = (state p = kPeerStarted);
              trigger_mode = (if started then ALWAYS_SEND else trigger_mode);
              p = (if started then p\<lparr>state := kPeerRunning\<rparr> else p)
          in if 0 < failed_attempts p \<and> trigger_mode = NON_EMPTY_ONLY
             then (OK, Release p, [])
             else
               (case SubmitClosure env of
                  OK \<Rightarrow> (OK, p, [SubmitSendNextRequest trigger_mode])
                | Error e \<Rightarrow> (Error e, Release p, [])))"

definition SendRemoteBootstrapRequest ::
  "'m PeerEnv \<Rightarrow> 'm Peer \<Rightarrow> Status \<times> 'm Peer \<times> PeerAction list" where
  "SendRemoteBootstrapRequest env p =
     (if \<not> enable_remote_bootstrap env
      then (Error NotSupported, p\<lparr>failed_attempts := failed_attempts p + 1\<rparr>, [])
      else
        (case GetRemoteBootstrapRequestForPeer env of
           Error e \<Rightarrow> (Error e, p, [])
         | OK \<Rightarrow> (OK, p, [StartRemoteBootstrap])))"

definition commit_index_of :: "OpId option \<Rightarrow> int" where
  "commit_index_of ci = (case ci of Some c \<Rightarrow> op_index c | None \<Rightarrow> kMinimumOpIdIndex)"

definition SendNextRequest ::
  "'m PeerEnv \<Rightarrow> 'm Peer \<Rightarrow> RequestTriggerMode \<Rightarrow> 'm Peer \<times> PeerAction list" where
  "SendNextRequest env p trigger_mode =
     (let commit_index_before = commit_index_of (request_committed_index p);
          p = p\<lparr>request_ops := RequestForPeer_ops env,
                request_committed_index := RequestForPeer_committed_index env\<rparr>;
          commit_index_after = commit_index_of (request_committed_index p)
      in
      if RequestForPeer_status env \<noteq> OK then (Release p, [])
      else if needs_remote_bootstrap env then
        (case SendRemoteBootstrapRequest env p of
           (OK, p, acts) \<Rightarrow> (p, acts)
         | (Error e, p, acts) \<Rightarrow> (Release p, acts))
      else if last_exchange_successful env
              \<and> (RequestForPeer_member_type env = PRE_VOTER \<or> RequestForPeer_member_type env = PRE_OBSERVER)
              \<and> has_consensus env then
        (let p = Release p in
         case ChangeConfig_CHANGE_ROLE env of
           OK \<Rightarrow> (p, [CallChangeConfig])
         | Error e \<Rightarrow>
             (case SignalRequest env p ALWAYS_SEND of
                (status, p, acts) \<Rightarrow> (p, CallChangeConfig # acts)))
      else
        let req_has_ops = (request_ops p \<noteq> [] \<or> commit_index_before < commit_index_after) in
        if \<not> req_has_ops \<and> trigger_mode = NON_EMPTY_ONLY then (Release p, [])
        else (p, (if req_has_ops then [HeartbeaterReset] else []) @ [UpdateAsync]))"

text \<open>The payload has no operations, the mode is NON_EMPTY_ONLY, and yet the request is
  sent with the permit kept: the committed index of the payload (5) is above the one of the
  previous request (3).\<close>

theorem SendNextRequest_empty_payload_counterexample:
  "RequestForPeer_ops
     \<lparr>RequestForPeer_status = OK, RequestForPeer_ops = ([] :: nat list),
      RequestForPeer_committed_index = Some \<lparr>op_term = 1, op_index = 5\<rparr>,
      needs_remote_bootstrap = False, RequestForPeer_member_type = VOTER, last_exchange_successful = True,
      SubmitClosure = OK, enable_remote_bootstrap = True,
      GetRemoteBootstrapRequestForPeer = OK, has_consensus = True,
      ChangeConfig_CHANGE_ROLE = OK\<rparr> = []
   \<and> SendNextRequest
     \<lparr>RequestForPeer_status = OK, RequestForPeer_ops = ([] :: nat list),
      RequestForPeer_committed_index = Some \<lparr>op_term = 1, op_index = 5\<rparr>,
      needs_remote_bootstrap = False, RequestForPeer_member_type = VOTER, last_exchange_successful = True,
      SubmitClosure = OK, enable_remote_bootstrap = True,
      GetRemoteBootstrapRequestForPeer = OK, has_consensus = True,
      ChangeConfig_CHANGE_ROLE = OK\<rparr>
     \<lparr>sem = 0, state = kPeerRunning, failed_attempts = 0, request_ops = [],
      request_committed_index = Some \<lparr>op_term = 1, op_index = 3\<rparr>\<rparr>
     NON_EMPTY_ONLY
   = (\<lparr>sem = 0, state = kPeerRunning, failed_attempts = 0, request_ops = [],
       request_committed_index = Some \<lparr>op_term = 1, op_index = 5\<rparr>\<rparr>,
      [HeartbeaterReset, UpdateAsync])"
  by (simp add: SendNextRequest_def commit_index_of_def)

text \<open>C8 (amended). In SendNextRequest, when the queue answers OK, the peer needs no remote
  bootstrap and is not being promoted (not a caught-up PRE_VOTER or PRE_OBSERVER), a payload
  with no operations whose committed index does not exceed the committed index of the
  previous request, under NON_EMPTY_ONLY, releases the permit and issues nothing. In
  SignalRequest with NON_EMPTY_ONLY, when the previous request failed and the peer is in the
  running state, the permit (if it could be taken) is released, OK is returned, and nothing
  is submitted; the peer is unchanged.\<close>

theorem Peer_skips_send:
  "(RequestForPeer_status env = OK \<and> \<not> needs_remote_bootstrap env
     \<and> \<not> (last_exchange_successful env
            \<and> (RequestForPeer_member_type env = PRE_VOTER \<or> RequestForPeer_member_type env = PRE_OBSERVER)
            \<and> has_consensus env)
     \<and> RequestForPeer_ops env = []
     \<and> commit_index_of (RequestForPeer_committed_index env)
           \<le> commit_index_of (request_committed_index p)
    \<longrightarrow> SendNextRequest env p NON_EMPTY_ONLY =
          (p\<lparr>request_ops := [],
             request_committed_index := RequestForPeer_committed_index env,
             sem := sem p + 1\<rparr>, []))
   \<and> (0 < failed_attempts p \<and> state p = kPeerRunning
    \<longrightarrow> SignalRequest env p NON_EMPTY_ONLY = (OK, p, []))"
  by (auto simp: SendNextRequest_def SignalRequest_def Release_def Let_def)

theorem Peer_skips_send_witness:
  "SendNextRequest
     \<lparr>RequestForPeer_status = OK, RequestForPeer_ops = ([] :: nat list),
      RequestForPeer_committed_index = Some \<lparr>op_term = 1, op_index = 3\<rparr>,
      needs_remote_bootstrap = False, RequestForPeer_member_type = VOTER,
      last_exchange_successful = True,
      SubmitClosure = OK, enable_remote_bootstrap = True,
      GetRemoteBootstrapRequestForPeer = OK, has_consensus = True,
      ChangeConfig_CHANGE_ROLE = OK\<rparr>
     \<lparr>sem = 0, state = kPeerRunning, failed_attempts = 0, request_ops = [7],
      request_committed_index = Some \<lparr>op_term = 1, op_index = 3\<rparr>\<rparr>
     NON_EMPTY_ONLY
   = (\<lparr>sem = 1, state = kPeerRunning, failed_attempts = 0, request_ops = [],
       request_committed_index = Some \<lparr>op_term = 1, op_index = 3\<rparr>\<rparr>, [])
   \<and> SignalRequest
     \<lparr>RequestForPeer_status = OK, RequestForPeer_ops = ([] :: nat list),
      RequestForPeer_committed_index = None,
      needs_remote_bootstrap = False, RequestForPeer_member_type = VOTER,
      last_exchange_successful = True,
      SubmitClosure = OK, enable_remote_bootstrap = True,
      GetRemoteBootstrapRequestForPeer = OK, has_consensus = True,
      ChangeConfig_CHANGE_ROLE = OK\<rparr>
     \<lparr>sem = 1, state = kPeerRunning, failed_attempts = 2, request_ops = [7],
      request_committed_index = None\<rparr>
     NON_EMPTY_ONLY
   = (OK, \<lparr>sem = 1, state = kPeerRunning, failed_attempts = 2, request_ops = [7],
      request_committed_index = None\<rparr>, [])"
  using
    Peer_skips_send
      [of "\<lparr>RequestForPeer_status = OK, RequestForPeer_ops = ([] :: nat list),
      RequestForPeer_committed_index = Some \<lparr>op_term = 1, op_index = 3\<rparr>,
      needs_remote_bootstrap = False, RequestForPeer_member_type = VOTER,
      last_exchange_successful = True,
      SubmitClosure = OK, enable_remote_bootstrap = True,
      GetRemoteBootstrapRequestForPeer = OK, has_consensus = True,
      ChangeConfig_CHANGE_ROLE = OK\<rparr>"
       "\<lparr>sem = 0, state = kPeerRunning, failed_attempts = 0, request_ops = [7],
      request_committed_index = Some \<lparr>op_term = 1, op_index = 3\<rparr>\<rparr>"]
    Peer_skips_send
      [of "\<lparr>RequestForPeer_status = OK, RequestForPeer_ops = ([] :: nat list),
      RequestForPeer_committed_index = None,
      needs_remote_bootstrap = False, RequestForPeer_member_type = VOTER,
      last_exchange_successful = True,
      SubmitClosure = OK, enable_remote_bootstrap = True,
      GetRemoteBootstrapRequestForPeer = OK, has_consensus = True,
      ChangeConfig_CHANGE_ROLE = OK\<rparr>"
       "\<lparr>sem = 1, state = kPeerRunning, failed_attempts = 2, request_ops = [7],
      request_committed_index = None\<rparr>"]
  by (simp add: commit_index_of_def)

section \<open>Raft configuration and replica state\<close>

record RaftPeerPB =
  permanent_uuid :: "string option"
  member_type :: "MemberType option"
  last_known_addr :: "string option"

record RaftConfigPB =
  opid_index :: "int option"
  peers :: "RaftPeerPB list"

text \<open>A protobuf getter of an unset optional field returns the field's default.\<close>

definition get_member_type :: "RaftPeerPB \<Rightarrow> MemberType" where
  "get_member_type p = (case member_type p of Some t \<Rightarrow> t | None \<Rightarrow> UNKNOWN_MEMBER_TYPE)"

definition get_opid_index :: "RaftConfigPB \<Rightarrow> int" where
  "get_opid_index c = (case opid_index c of Some i \<Rightarrow> i | None \<Rightarrow> 0)"

text \<open>Modelled from the spec: the helpers of quorum\_util are not among the given sources.
  A uuid is a member of a config when some peer carries it; removing a uuid drops every peer
  that carries it and reports whether there was one; looking a member up yields the first
  peer that carries the uuid; the servers in transition are the PRE\_VOTER and PRE\_OBSERVER
  peers, not counting the peer with the uuid to ignore (the peer being removed).\<close>

definition IsRaftConfigMember :: "string \<Rightarrow> RaftConfigPB \<Rightarrow> bool" where
  "IsRaftConfigMember uuid config = (\<exists>p \<in> set (peers config). permanent_uuid p = Some uuid)"

definition RemoveFromRaftConfig :: "RaftConfigPB \<Rightarrow> string \<Rightarrow> bool \<times> RaftConfigPB" where
  "RemoveFromRaftConfig config uuid =
     (if IsRaftConfigMember uuid config
      then (True, config\<lparr>peers := filter (\<lambda>p. permanent_uuid p \<noteq> Some uuid) (peers config)\<rparr>)
      else (False, config))"

fun change_role_of :: "string \<Rightarrow> RaftPeerPB list \<Rightarrow> (ErrorCode + RaftPeerPB list)" where
  "change_role_of uuid [] = Inl NotFound"
| "change_role_of uuid (p # ps) =
     (if permanent_uuid p = Some uuid then
        (if get_member_type p \<noteq> PRE_OBSERVER \<and> get_member_type p \<noteq> PRE_VOTER
         then Inl IllegalState
         else if get_member_type p = PRE_OBSERVER
         then Inr (p\<lparr>member_type := Some OBSERVER\<rparr> # ps)
         else Inr (p\<lparr>member_type := Some VOTER\<rparr> # ps))
      else (case change_role_of uuid ps of Inl e \<Rightarrow> Inl e | Inr ps' \<Rightarrow> Inr (p # ps')))"

definition CountServersInTransition :: "RaftConfigPB \<Rightarrow> string \<Rightarrow> int" where
  "CountServersInTransition config ignore_uuid =
     int (length (filter (\<lambda>p. (member_type p = Some PRE_VOTER \<or> member_type p = Some PRE_OBSERVER)
                               \<and> permanent_uuid p \<noteq> Some ignore_uuid) (peers config)))"

datatype Role = UNKNOWN_ROLE | FOLLOWER | LEADER | LEARNER | NON_PARTICIPANT | READ_REPLICA

datatype State = kInitialized | kRunning | kShuttingDown | kShutDown

text \<open>A replicate message, without its payload: the op id, the operation type, the hybrid
  time, and the committed op id that the leader stamps into it when it appends it (unset in
  a message that was never stamped).\<close>

datatype OperationType = UNKNOWN_OP | NO_OP | WRITE_OP | ALTER_SCHEMA_OP | CHANGE_CONFIG_OP
  | UPDATE_TRANSACTION_OP | SNAPSHOT_OP | TRUNCATE_OP

record ReplicateMsg =
  msg_id :: OpId
  op_type :: OperationType
  hybrid_time :: nat
  committed_op_id :: "OpId option"

definition MinimumOpId :: OpId where
  "MinimumOpId = \<lparr>op_term = 0, op_index = 0\<rparr>"

text \<open>The members of \<open>ReplicaState\<close> (replica\_state.h), with the consensus metadata
  (\<open>cmeta_\<close>) flattened into the current term, the vote, the leader uuid and the
  committed and pending configs. \<open>persisted_term\<close> and \<open>persisted_vote\<close> stand
  for the copy of the metadata on disk, written by a successful flush. A pending round is
  kept as its replicate message. \<open>old_leader_lease_expiration\<close> is \<open>None\<close> while the
  MonoTime is not initialized.\<close>

record ReplicaState =
  peer_uuid :: string
  current_term :: int
  voted_for :: "string option"
  persisted_term :: int
  persisted_vote :: "string option"
  leader_uuid :: string
  committed_config :: RaftConfigPB
  pending_config :: "RaftConfigPB option"
  next_index :: int
  pending_operations :: "int \<rightharpoonup> ReplicateMsg"
  last_received_op_id :: OpId
  last_received_op_id_current_leader :: OpId
  last_committed_index :: OpId
  pending_election_opid :: "OpId option"
  rs_state :: State
  old_leader_lease_expiration :: "int option"
  old_leader_ht_lease_expiration :: nat

definition GetActiveConfigUnlocked :: "'a ReplicaState_scheme \<Rightarrow> RaftConfigPB" where
  "GetActiveConfigUnlocked s =
     (case pending_config s of Some c \<Rightarrow> c | None \<Rightarrow> committed_config s)"

definition IsConfigChangePendingUnlocked :: "'a ReplicaState_scheme \<Rightarrow> bool" where
  "IsConfigChangePendingUnlocked s = (pending_config s \<noteq> None)"

definition AreCommittedAndCurrentTermsSameUnlocked :: "'a ReplicaState_scheme \<Rightarrow> bool" where
  "AreCommittedAndCurrentTermsSameUnlocked s =
     (op_term (last_committed_index s) = current_term s)"

section \<open>RaftConsensus: ChangeConfig\<close>

datatype ChangeConfigType = UNKNOWN_CHANGE | ADD_SERVER | REMOVE_SERVER | CHANGE_ROLE

datatype TabletServerErrorCode =
  INVALID_CONFIG | NOT_THE_LEADER | LEADER_NOT_READY_CHANGE_CONFIG | CAS_FAILED
  | ADD_CHANGE_CONFIG_ALREADY_PRESENT | LEADER_NEEDS_STEP_DOWN
  | REMOVE_CHANGE_CONFIG_NOT_PRESENT

record ChangeConfigRequestPB =
  req_type :: "ChangeConfigType option"
  req_server :: "RaftPeerPB option"
  cas_config_opid_index :: "int option"

text \<open>The \<open>LockFor*\<close> methods of the replica state check the lifecycle state and the
  role before handing out the state lock; their code is not among the sources, so what they
  answer is an input of each entry point.\<close>

record StateLocks =
  LockForConfigChange :: Status
  LockForReplicate :: Status
  LockForUpdate :: Status

text \<open>What the calls that leave the modelled code answer during one ChangeConfig: the
  state lock, the unit-test hook (\<open>FLAGS_return_error_on_change_config\<close> set and the
  clock draw below it), the leadership check, and the replication of the new config.\<close>

record ChangeConfigEnv = StateLocks +
  return_error_for_unit_test :: bool
  CheckActiveLeaderUnlocked :: Status
  ReplicateConfigChangeUnlocked :: Status

definition IsLeaderReadyForChangeConfigUnlocked ::
  "'a ReplicaState_scheme \<Rightarrow> ChangeConfigType \<Rightarrow> string \<Rightarrow> Status" where
  "IsLeaderReadyForChangeConfigUnlocked s type server_uuid =
     (let active_config = GetActiveConfigUnlocked s;
          servers_in_transition =
            (if type = ADD_SERVER then CountServersInTransition active_config []
             else if type = REMOVE_SERVER then CountServersInTransition active_config server_uuid
             else 0)
      in if \<not> AreCommittedAndCurrentTermsSameUnlocked s
            \<or> IsConfigChangePendingUnlocked s
            \<or> servers_in_transition \<noteq> 0
         then Error IllegalState else OK)"

text \<open>The result of ChangeConfig: the status, the error code left in \<open>*error_code\<close>, and
  the new config handed to ReplicateConfigChangeUnlocked when the call got that far.\<close>

record ChangeConfigResult =
  cc_status :: Status
  cc_error_code :: "TabletServerErrorCode option"
  cc_new_config :: "RaftConfigPB option"

definition cc_fail :: "ErrorCode \<Rightarrow> TabletServerErrorCode option \<Rightarrow> ChangeConfigResult" where
  "cc_fail e code = \<lparr>cc_status = Error e, cc_error_code = code, cc_new_config = None\<rparr>"

definition cc_replicate :: "ChangeConfigEnv \<Rightarrow> RaftConfigPB \<Rightarrow> ChangeConfigResult" where
  "cc_replicate env new_config =
     \<lparr>cc_status = ReplicateConfigChangeUnlocked env, cc_error_code = None,
      cc_new_config = Some new_config\<rparr>"

definition ChangeConfig ::
  "ChangeConfigEnv \<Rightarrow> 'a ReplicaState_scheme \<Rightarrow> ChangeConfigRequestPB \<Rightarrow> ChangeConfigResult" where
  "ChangeConfig env s req =
    (case req_type req of
       None \<Rightarrow> cc_fail InvalidArgument None
     | Some type \<Rightarrow>
    (case req_server req of
       None \<Rightarrow> cc_fail InvalidArgument (Some INVALID_CONFIG)
     | Some server \<Rightarrow>
    if return_error_for_unit_test env \<and> type = CHANGE_ROLE then cc_fail IllegalState None
    else
    (case permanent_uuid server of
       None \<Rightarrow> cc_fail InvalidArgument None
     | Some server_uuid \<Rightarrow>
    (case LockForConfigChange env of
       Error e \<Rightarrow> cc_fail e None
     | OK \<Rightarrow>
    (case CheckActiveLeaderUnlocked env of
       Error e \<Rightarrow> cc_fail e (Some NOT_THE_LEADER)
     | OK \<Rightarrow>
    (case IsLeaderReadyForChangeConfigUnlocked s type server_uuid of
       Error e \<Rightarrow> cc_fail e (Some LEADER_NOT_READY_CHANGE_CONFIG)
     | OK \<Rightarrow>
    let committed = committed_config s in
    if cas_config_opid_index req \<noteq> None
       \<and> Some (get_opid_index committed) \<noteq> cas_config_opid_index req
    then cc_fail IllegalState (Some CAS_FAILED)
    else
    let new_config = committed\<lparr>opid_index := None\<rparr> in
    (case type of
       ADD_SERVER \<Rightarrow>
         if IsRaftConfigMember server_uuid committed
         then cc_fail IllegalState (Some ADD_CHANGE_CONFIG_ALREADY_PRESENT)
         else if member_type server = None then cc_fail InvalidArgument None
         else if get_member_type server \<noteq> PRE_VOTER \<and> get_member_type server \<noteq> PRE_OBSERVER
         then cc_fail InvalidArgument None
         else if last_known_addr server = None then cc_fail InvalidArgument None
         else cc_replicate env (new_config\<lparr>peers := peers new_config @ [server]\<rparr>)
     | REMOVE_SERVER \<Rightarrow>
         if server_uuid = peer_uuid s
         then cc_fail InvalidArgument (Some LEADER_NEEDS_STEP_DOWN)
         else (case RemoveFromRaftConfig new_config server_uuid of
                 (False, c) \<Rightarrow> cc_fail NotFound (Some REMOVE_CHANGE_CONFIG_NOT_PRESENT)
               | (True, c) \<Rightarrow> cc_replicate env c)
     | CHANGE_ROLE \<Rightarrow>
         if server_uuid = peer_uuid s then cc_fail InvalidArgument None
         else (case change_role_of server_uuid (peers new_config) of
                 Inl e \<Rightarrow> cc_fail e None
               | Inr ps \<Rightarrow> cc_replicate env (new_config\<lparr>peers := ps\<rparr>))
     | UNKNOWN_CHANGE \<Rightarrow> cc_fail InvalidArgument None)))))))"



text \<open>An example state for the evaluations below: peer \<open>a\<close> leads term 3 of a config with
  the voter \<open>a\<close> and the PRE\_VOTER \<open>c\<close>, everything up to index 9 is committed, and no
  config change is pending.\<close>

definition example_leader :: ReplicaState where
  "example_leader =
     \<lparr>peer_uuid = ''a'', current_term = 3, voted_for = Some ''a'', persisted_term = 3,
      persisted_vote = Some ''a'', leader_uuid = ''a'',
      committed_config = \<lparr>opid_index = Some 7, peers =
        [\<lparr>permanent_uuid = Some ''a'', member_type = Some VOTER, last_known_addr = Some ''h1''\<rparr>,
         \<lparr>permanent_uuid = Some ''c'', member_type = Some PRE_VOTER, last_known_addr = Some ''h3''\<rparr>]\<rparr>,
      pending_config = None, next_index = 10, pending_operations = Map.empty,
      last_received_op_id = \<lparr>op_term = 3, op_index = 9\<rparr>,
      last_received_op_id_current_leader = \<lparr>op_term = 3, op_index = 9\<rparr>,
      last_committed_index = \<lparr>op_term = 3, op_index = 9\<rparr>,
      pending_election_opid = None, rs_state = kRunning,
      old_leader_lease_expiration = None, old_leader_ht_lease_expiration = 0\<rparr>"

definition example_change_config_env :: ChangeConfigEnv where
  "example_change_config_env =
     \<lparr>LockForConfigChange = OK, LockForReplicate = OK, LockForUpdate = OK,
      return_error_for_unit_test = False, CheckActiveLeaderUnlocked = OK,
      ReplicateConfigChangeUnlocked = OK\<rparr>"

text \<open>A CHANGE\_ROLE request while a peer (the one to promote) is a PRE\_VOTER: a peer is in
  transition, and the request is not refused as LEADER\_NOT\_READY\_CHANGE\_CONFIG; it goes
  through and replicates the config with the peer promoted.\<close>

theorem ChangeConfig_change_role_counterexample:
  "CountServersInTransition (GetActiveConfigUnlocked example_leader) [] = 1
   \<and> ChangeConfig example_change_config_env example_leader
     \<lparr>req_type = Some CHANGE_ROLE,
      req_server = Some \<lparr>permanent_uuid = Some ''c'', member_type = None, last_known_addr = None\<rparr>,
      cas_config_opid_index = None\<rparr>
   = \<lparr>cc_status = OK, cc_error_code = None,
      cc_new_config = Some \<lparr>opid_index = None, peers =
        [\<lparr>permanent_uuid = Some ''a'', member_type = Some VOTER, last_known_addr = Some ''h1''\<rparr>,
         \<lparr>permanent_uuid = Some ''c'', member_type = Some VOTER, last_known_addr = Some ''h3''\<rparr>]\<rparr>\<rparr>"
  by (simp add: ChangeConfig_def IsLeaderReadyForChangeConfigUnlocked_def
        GetActiveConfigUnlocked_def CountServersInTransition_def
        AreCommittedAndCurrentTermsSameUnlocked_def IsConfigChangePendingUnlocked_def
        cc_replicate_def get_member_type_def example_leader_def example_change_config_env_def)

lemma cc_error_code_simps:
  "cc_error_code (cc_fail e code) = code"
  "cc_error_code (cc_replicate env c) = None"
  "cc_status (cc_fail e code) = Error e"
  by (simp_all add: cc_fail_def cc_replicate_def)

lemma ChangeConfig_after_ready_check:
  assumes "IsLeaderReadyForChangeConfigUnlocked s type uuid = OK"
    and "req_type req = Some type" and "req_server req = Some server"
    and "permanent_uuid server = Some uuid"
    and "\<not> (return_error_for_unit_test env \<and> type = CHANGE_ROLE)"
    and "LockForConfigChange env = OK" and "CheckActiveLeaderUnlocked env = OK"
  shows "cc_error_code (ChangeConfig env s req) \<noteq> Some LEADER_NOT_READY_CHANGE_CONFIG"
proof (cases type)
  case UNKNOWN_CHANGE
  with assms show ?thesis by (simp add: ChangeConfig_def Let_def cc_error_code_simps)
next
  case ADD_SERVER
  with assms show ?thesis by (simp add: ChangeConfig_def Let_def cc_error_code_simps)
next
  case REMOVE_SERVER
  with assms show ?thesis
    by (simp add: ChangeConfig_def Let_def cc_error_code_simps RemoveFromRaftConfig_def)
next
  case CHANGE_ROLE
  with assms show ?thesis
    by (simp add: ChangeConfig_def Let_def cc_error_code_simps split: sum.split)
qed

lemma ChangeConfig_not_ready:
  assumes "IsLeaderReadyForChangeConfigUnlocked s type uuid = Error e"
    and "req_type req = Some type" and "req_server req = Some server"
    and "permanent_uuid server = Some uuid"
    and "\<not> (return_error_for_unit_test env \<and> type = CHANGE_ROLE)"
    and "LockForConfigChange env = OK" and "CheckActiveLeaderUnlocked env = OK"
  shows "ChangeConfig env s req = cc_fail e (Some LEADER_NOT_READY_CHANGE_CONFIG)"
  using assms by (auto simp: ChangeConfig_def)

text \<open>C5 (amended). A ChangeConfig request that names its type, its server and the server's
  uuid, is not cut short by the unit-test hook, and reaches a leader (state lock and
  leadership check pass) fails with LEADER\_NOT\_READY\_CHANGE\_CONFIG (status IllegalState)
  exactly when one of these preconditions fails: an entry of the current term is committed;
  no config change is pending; and, for ADD\_SERVER and REMOVE\_SERVER only, no peer of the
  active config is a PRE\_VOTER or PRE\_OBSERVER (for REMOVE\_SERVER, other than the peer
  being removed). For CHANGE\_ROLE peers in transition do not matter.\<close>

theorem ChangeConfig_leader_not_ready:
  assumes "req_type req = Some type" and "req_server req = Some server"
    and "permanent_uuid server = Some uuid"
    and "\<not> (return_error_for_unit_test env \<and> type = CHANGE_ROLE)"
    and "LockForConfigChange env = OK" and "CheckActiveLeaderUnlocked env = OK"
  shows "((cc_error_code (ChangeConfig env s req) = Some LEADER_NOT_READY_CHANGE_CONFIG)
         = (\<not> (op_term (last_committed_index s) = current_term s
               \<and> pending_config s = None
               \<and> (type = ADD_SERVER \<longrightarrow>
                    CountServersInTransition (GetActiveConfigUnlocked s) [] = 0)
               \<and> (type = REMOVE_SERVER \<longrightarrow>
                    CountServersInTransition (GetActiveConfigUnlocked s) uuid = 0))))
    \<and> (cc_error_code (ChangeConfig env s req) = Some LEADER_NOT_READY_CHANGE_CONFIG
         \<longrightarrow> cc_status (ChangeConfig env s req) = Error IllegalState)"
proof (intro conjI)
  have ready: "(IsLeaderReadyForChangeConfigUnlocked s type uuid = OK)
       = (op_term (last_committed_index s) = current_term s
               \<and> pending_config s = None
               \<and> (type = ADD_SERVER \<longrightarrow>
                    CountServersInTransition (GetActiveConfigUnlocked s) [] = 0)
               \<and> (type = REMOVE_SERVER \<longrightarrow>
                    CountServersInTransition (GetActiveConfigUnlocked s) uuid = 0))"
    by (auto simp: IsLeaderReadyForChangeConfigUnlocked_def Let_def
          AreCommittedAndCurrentTermsSameUnlocked_def IsConfigChangePendingUnlocked_def)
  have not_ready: "IsLeaderReadyForChangeConfigUnlocked s type uuid = OK
        \<or> IsLeaderReadyForChangeConfigUnlocked s type uuid = Error IllegalState"
    by (simp add: IsLeaderReadyForChangeConfigUnlocked_def Let_def)
  have code: "(cc_error_code (ChangeConfig env s req) = Some LEADER_NOT_READY_CHANGE_CONFIG)
      = (IsLeaderReadyForChangeConfigUnlocked s type uuid \<noteq> OK)"
  proof (cases "IsLeaderReadyForChangeConfigUnlocked s type uuid = OK")
    case True
    from ChangeConfig_after_ready_check [OF True assms] True show ?thesis by simp
  next
    case False
    with not_ready have "IsLeaderReadyForChangeConfigUnlocked s type uuid = Error IllegalState"
      by simp
    from ChangeConfig_not_ready [OF this assms] False show ?thesis
      by (simp add: cc_error_code_simps)
  qed
  show "(cc_error_code (ChangeConfig env s req) = Some LEADER_NOT_READY_CHANGE_CONFIG)
         = (\<not> (op_term (last_committed_index s) = current_term s
               \<and> pending_config s = None
               \<and> (type = ADD_SERVER \<longrightarrow>
                    CountServersInTransition (GetActiveConfigUnlocked s) [] = 0)
               \<and> (type = REMOVE_SERVER \<longrightarrow>
                    CountServersInTransition (GetActiveConfigUnlocked s) uuid = 0)))"
    unfolding code ready by (rule refl)
  show "cc_error_code (ChangeConfig env s req) = Some LEADER_NOT_READY_CHANGE_CONFIG
         \<longrightarrow> cc_status (ChangeConfig env s req) = Error IllegalState"
  proof
    assume "cc_error_code (ChangeConfig env s req) = Some LEADER_NOT_READY_CHANGE_CONFIG"
    with code not_ready
    have "IsLeaderReadyForChangeConfigUnlocked s type uuid = Error IllegalState" by simp
    from ChangeConfig_not_ready [OF this assms] show
      "cc_status (ChangeConfig env s req) = Error IllegalState"
      by (simp add: cc_error_code_simps)
  qed
qed

theorem ChangeConfig_leader_not_ready_witness:
  "cc_error_code (ChangeConfig example_change_config_env example_leader
     \<lparr>req_type = Some ADD_SERVER,
      req_server = Some \<lparr>permanent_uuid = Some ''d'', member_type = Some PRE_VOTER,
                         last_known_addr = Some ''h4''\<rparr>,
      cas_config_opid_index = None\<rparr>) = Some LEADER_NOT_READY_CHANGE_CONFIG
   \<and> cc_status (ChangeConfig example_change_config_env example_leader
     \<lparr>req_type = Some ADD_SERVER,
      req_server = Some \<lparr>permanent_uuid = Some ''d'', member_type = Some PRE_VOTER,
                         last_known_addr = Some ''h4''\<rparr>,
      cas_config_opid_index = None\<rparr>) = Error IllegalState"
proof -
  let ?server = "\<lparr>permanent_uuid = Some ''d'', member_type = Some PRE_VOTER,
                         last_known_addr = Some ''h4''\<rparr>"
  let ?req = "\<lparr>req_type = Some ADD_SERVER, req_server = Some ?server,
      cas_config_opid_index = None\<rparr>"
  have h: "req_type ?req = Some ADD_SERVER" "req_server ?req = Some ?server"
    "permanent_uuid ?server = Some ''d''"
    "\<not> (return_error_for_unit_test example_change_config_env \<and> ADD_SERVER = CHANGE_ROLE)"
    "LockForConfigChange example_change_config_env = OK"
    "CheckActiveLeaderUnlocked example_change_config_env = OK"
    by (simp_all add: example_change_config_env_def)
  have count: "CountServersInTransition (GetActiveConfigUnlocked example_leader) [] = 1"
    by (simp add: CountServersInTransition_def GetActiveConfigUnlocked_def example_leader_def)
  from ChangeConfig_leader_not_ready [OF h, of example_leader] count show ?thesis by simp
qed

section \<open>RaftConsensus: term advance and RequestVote\<close>

text \<open>A MonoTime is a point in time, or one of the two sentinels \<open>MonoTime::Min()\<close> and
  \<open>MonoTime::Max()\<close>. The current time is always a point.\<close>

datatype MonoTime = MonoTime_Min | MonoTime_At int | MonoTime_Max

fun now_before :: "int \<Rightarrow> MonoTime \<Rightarrow> bool" where
  "now_before now MonoTime_Min = False"
| "now_before now (MonoTime_At t) = (now < t)"
| "now_before now MonoTime_Max = True"

text \<open>The calls into collaborators that the modelled code makes, kept in order: the
  failure detector, the consensus metadata on disk, the message queue, the peer manager,
  the listeners, the informational log line about an unknown candidate, the append callback
  of a leader-side round, the rollback of an allocated op id, the clock, the operation
  factory (propagated safe time, start and apply of a replica operation), the dirty mark
  for a new leader, and the start of an election.\<close>

datatype ConsensusCall =
    SnoozeFailureDetector
  | TrackFailureDetector
  | FlushConsensusMetadata
  | UnRegisterObserverCall
  | SetNonLeaderMode
  | PeerManagerClose
  | LostLeadershipListener
  | LogVoteRequestFromUnknownPeer string
  | HandleConsensusAppend
  | QueueAppendOperations "ReplicateMsg list"
  | CancelPendingOperationCall OpId
  | ClockUpdate nat
  | SetPropagatedSafeTime nat
  | StartReplicaOperationCall ReplicateMsg
  | ApplyPendingOperation ReplicateMsg
  | MarkDirtyNewLeader string
  | StartElectionCall

record RaftConsensus = ReplicaState +
  withhold_votes_until :: MonoTime
  withhold_election_start_until :: MonoTime
  protege_leader_uuid :: string
  election_lost_by_protege_at :: "int option"
  calls :: "ConsensusCall list"

text \<open>What the collaborators answer: the flag that enables failure detection, the clock,
  the failure detector (\<open>MessageFrom\<close> for the k-th snooze of the entry point,
  \<open>IsTracking\<close>, \<open>Track\<close>), the queue's \<open>UnRegisterObserver\<close>, the post-stepdown
  delay computed from the flags, the flush of the consensus metadata, whether a
  lost-leadership listener is installed, and what the queue's \<open>AppendOperations\<close>
  returns for a list of messages.\<close>

record ConsensusEnv = StateLocks +
  enable_leader_failure_detection :: bool
  Now :: int
  MessageFrom :: "nat \<Rightarrow> Status"
  failure_detector_IsTracking :: bool
  Track :: Status
  UnRegisterObserver :: Status
  after_stepdown_timeout :: int
  Flush :: Status
  has_lost_leadership_listener :: bool
  queue_AppendOperations :: "ReplicateMsg list \<Rightarrow> Status"

text \<open>Modelled from the spec: the active role is kept by the consensus metadata, whose code
  is not among the sources. The modelled code only asks whether the role is LEADER; the
  replica is the leader when the leader uuid of the current term is its own, and a replica
  that clears the leader uuid "becomes follower".\<close>

definition GetActiveRoleUnlocked :: "'a ReplicaState_scheme \<Rightarrow> Role" where
  "GetActiveRoleUnlocked s = (if leader_uuid s = peer_uuid s then LEADER else FOLLOWER)"

definition call :: "ConsensusCall \<Rightarrow> RaftConsensus \<Rightarrow> RaftConsensus" where
  "call x c = c\<lparr>calls := calls c @ [x]\<rparr>"

text \<open>Modelled from the spec: flushing the consensus metadata writes the current term and
  the vote to disk when it succeeds.\<close>

definition flush_cmeta :: "'e ConsensusEnv_scheme \<Rightarrow> RaftConsensus \<Rightarrow> Status \<times> RaftConsensus" where
  "flush_cmeta env c =
     (case Flush env of
        OK \<Rightarrow> (OK, call FlushConsensusMetadata
                     (c\<lparr>persisted_term := current_term c, persisted_vote := voted_for c\<rparr>))
      | Error e \<Rightarrow> (Error e, call FlushConsensusMetadata c))"

text \<open>Modelled from the spec: \<open>SetVotedForCurrentTermUnlocked\<close> records the vote for the
  current term, then flushes the consensus metadata to disk.\<close>

definition SetVotedForCurrentTermUnlocked ::
  "'e ConsensusEnv_scheme \<Rightarrow> RaftConsensus \<Rightarrow> string \<Rightarrow> Status \<times> RaftConsensus" where
  "SetVotedForCurrentTermUnlocked env c uuid = flush_cmeta env (c\<lparr>voted_for := Some uuid\<rparr>)"

text \<open>Modelled from the spec: \<open>SetCurrentTermUnlocked\<close> checks that the term change is legal
  (only increasing); if so it sets the current term, clears the vote and persists both. The
  leader uuid is that of the leader of the current term (replica\_state.h), so once the new
  term is persisted the leader is no longer known: the leader uuid is cleared (the
  specification's scenario of a term advance ends with "clears leader uuid"), and the id of
  the last op received from the current leader is reset to the minimum op id.\<close>

definition SetCurrentTermUnlocked ::
  "'e ConsensusEnv_scheme \<Rightarrow> RaftConsensus \<Rightarrow> int \<Rightarrow> Status \<times> RaftConsensus" where
  "SetCurrentTermUnlocked env c new_term =
     (if new_term \<le> current_term c then (Error IllegalState, c)
      else
        (case flush_cmeta env (c\<lparr>current_term := new_term, voted_for := None\<rparr>) of
           (OK, c) \<Rightarrow>
             (OK, c\<lparr>leader_uuid := [], last_received_op_id_current_leader := MinimumOpId\<rparr>)
         | (Error e, c) \<Rightarrow> (Error e, c)))"

definition SnoozeFailureDetectorUnlocked ::
  "'e ConsensusEnv_scheme \<Rightarrow> nat \<Rightarrow> RaftConsensus \<Rightarrow> Status \<times> RaftConsensus" where
  "SnoozeFailureDetectorUnlocked env k c =
     (if \<not> enable_leader_failure_detection env then (OK, c)
      else (MessageFrom env k, call SnoozeFailureDetector c))"

definition EnsureFailureDetectorEnabledUnlocked ::
  "'e ConsensusEnv_scheme \<Rightarrow> RaftConsensus \<Rightarrow> Status \<times> RaftConsensus" where
  "EnsureFailureDetectorEnabledUnlocked env c =
     (if \<not> enable_leader_failure_detection env then (OK, c)
      else if failure_detector_IsTracking env then (OK, c)
      else (Track env, call TrackFailureDetector c))"

definition WithholdElectionAfterStepDown ::
  "'e ConsensusEnv_scheme \<Rightarrow> RaftConsensus \<Rightarrow> string \<Rightarrow> RaftConsensus" where
  "WithholdElectionAfterStepDown env c protege_uuid =
     c\<lparr>protege_leader_uuid := protege_uuid,
       withhold_election_start_until := MonoTime_At (Now env + after_stepdown_timeout env),
       election_lost_by_protege_at := None\<rparr>"

definition BecomeReplicaUnlocked ::
  "'e ConsensusEnv_scheme \<Rightarrow> RaftConsensus \<Rightarrow> Status \<times> RaftConsensus" where
  "BecomeReplicaUnlocked env c =
     (let c = (if GetActiveRoleUnlocked c = LEADER
               then WithholdElectionAfterStepDown env c [] else c);
          c = c\<lparr>leader_uuid := []\<rparr>
      in case EnsureFailureDetectorEnabledUnlocked env c of
           (Error e, c) \<Rightarrow> (Error e, c)
         | (OK, c) \<Rightarrow>
             let c = call UnRegisterObserverCall (c\<lparr>withhold_votes_until := MonoTime_Min\<rparr>) in
             if UnRegisterObserver env \<noteq> Error NotFound \<and> UnRegisterObserver env \<noteq> OK
             then (UnRegisterObserver env, c)
             else
               let c = call PeerManagerClose (call SetNonLeaderMode c) in
               (OK, if has_lost_leadership_listener env then call LostLeadershipListener c else c))"

definition HandleTermAdvanceUnlocked ::
  "'e ConsensusEnv_scheme \<Rightarrow> RaftConsensus \<Rightarrow> int \<Rightarrow> Status \<times> RaftConsensus" where
  "HandleTermAdvanceUnlocked env c new_term =
     (if new_term \<le> current_term c then (Error IllegalState, c)
      else
        (case (if GetActiveRoleUnlocked c = LEADER then BecomeReplicaUnlocked env c else (OK, c)) of
           (Error e, c) \<Rightarrow> (Error e, c)
         | (OK, c) \<Rightarrow> SetCurrentTermUnlocked env c new_term))"

datatype ConsensusErrorCode =
  INVALID_TERM | PRECEDING_ENTRY_DIDNT_MATCH | ALREADY_VOTED | LAST_OPID_TOO_OLD
  | LEADER_IS_ALIVE | CONSENSUS_BUSY | CANNOT_PREPARE

record VoteRequestPB =
  candidate_uuid :: string
  candidate_term :: int
  candidate_last_received :: OpId
  ignore_live_leader :: bool

record VoteResponsePB =
  vote_responder_uuid :: "string option"
  vote_responder_term :: "int option"
  vote_granted :: "bool option"
  vote_error_code :: "ConsensusErrorCode option"
  vote_error_status :: "ErrorCode option"
  remaining_leader_lease_duration_ms :: "int option"
  leader_ht_lease_expiration :: "nat option"

definition empty_vote_response :: VoteResponsePB where
  "empty_vote_response =
     \<lparr>vote_responder_uuid = None, vote_responder_term = None, vote_granted = None,
      vote_error_code = None, vote_error_status = None,
      remaining_leader_lease_duration_ms = None, leader_ht_lease_expiration = None\<rparr>"

text \<open>What RequestVote reads besides the shared collaborators: whether another thread holds
  the coarse update lock when the call arrives, the last op id in the log, and the remaining
  lease of the old leader (\<open>None\<close>: an uninitialized MonoDelta, the lease has expired or
  is not known).\<close>

record VoteEnv = ConsensusEnv +
  update_lock_held :: bool
  GetLatestOpIdFromLog :: OpId
  RemainingOldLeaderLeaseDuration :: "int option"

text \<open>Modelled from the spec: \<open>OpIdLessThan\<close> (opid\_util) is the strict lexicographic
  order on op ids, term first and then index.\<close>

definition OpIdLessThan :: "OpId \<Rightarrow> OpId \<Rightarrow> bool" where
  "OpIdLessThan left right =
     (op_term left < op_term right
      \<or> (op_term left = op_term right \<and> op_index left < op_index right))"

text \<open>The physical component of \<open>HybridTime::kMin\<close>, the initial value of the old
  leader's hybrid-time lease expiration (declared outside the given sources).\<close>

definition kMin_PhysicalValueMicros :: nat where
  "kMin_PhysicalValueMicros = 0"

definition FillVoteResponseVoteGranted :: "RaftConsensus \<Rightarrow> VoteResponsePB \<Rightarrow> VoteResponsePB" where
  "FillVoteResponseVoteGranted c response =
     response\<lparr>vote_responder_term := Some (current_term c), vote_granted := Some True\<rparr>"

definition FillVoteResponseVoteDenied ::
  "ConsensusErrorCode \<Rightarrow> RaftConsensus \<Rightarrow> VoteResponsePB \<Rightarrow> VoteResponsePB" where
  "FillVoteResponseVoteDenied error_code c response =
     response\<lparr>vote_responder_term := Some (current_term c), vote_granted := Some False,
              vote_error_code := Some error_code\<rparr>"

text \<open>The five denials differ in the consensus error code and in the kind of the status
  stored with it.\<close>

definition RequestVoteRespondDenied ::
  "ConsensusErrorCode \<Rightarrow> ErrorCode \<Rightarrow> RaftConsensus \<Rightarrow> VoteResponsePB
   \<Rightarrow> Status \<times> VoteResponsePB \<times> RaftConsensus" where
  "RequestVoteRespondDenied error_code kind c response =
     (OK, (FillVoteResponseVoteDenied error_code c response)\<lparr>vote_error_status := Some kind\<rparr>, c)"

definition RequestVoteRespondInvalidTerm where
  "RequestVoteRespondInvalidTerm = RequestVoteRespondDenied INVALID_TERM InvalidArgument"

definition RequestVoteRespondAlreadyVotedForOther where
  "RequestVoteRespondAlreadyVotedForOther = RequestVoteRespondDenied ALREADY_VOTED InvalidArgument"

definition RequestVoteRespondLastOpIdTooOld where
  "RequestVoteRespondLastOpIdTooOld = RequestVoteRespondDenied LAST_OPID_TOO_OLD InvalidArgument"

definition RequestVoteRespondLeaderIsAlive where
  "RequestVoteRespondLeaderIsAlive = RequestVoteRespondDenied LEADER_IS_ALIVE InvalidArgument"

definition RequestVoteRespondIsBusy where
  "RequestVoteRespondIsBusy = RequestVoteRespondDenied CONSENSUS_BUSY ServiceUnavailable"

definition RequestVoteRespondVoteAlreadyGranted ::
  "RaftConsensus \<Rightarrow> VoteResponsePB \<Rightarrow> Status \<times> VoteResponsePB \<times> RaftConsensus" where
  "RequestVoteRespondVoteAlreadyGranted c response =
     (OK, FillVoteResponseVoteGranted c response, c)"

text \<open>The additional back-off handed to the two snoozes is a randomized floating-point
  value; it only moves the failure detector's deadline and is not modelled.\<close>

definition RequestVoteRespondVoteGranted ::
  "'e ConsensusEnv_scheme \<Rightarrow> VoteRequestPB \<Rightarrow> RaftConsensus \<Rightarrow> VoteResponsePB
   \<Rightarrow> Status \<times> VoteResponsePB \<times> RaftConsensus" where
  "RequestVoteRespondVoteGranted env request c response =
     (case SnoozeFailureDetectorUnlocked env 0 c of
        (Error e, c) \<Rightarrow> (Error e, response, c)
      | (OK, c) \<Rightarrow>
     (case SetVotedForCurrentTermUnlocked env c (candidate_uuid request) of
        (Error e, c) \<Rightarrow> (Error e, response, c)
      | (OK, c) \<Rightarrow>
     let response = FillVoteResponseVoteGranted c response in
     (case SnoozeFailureDetectorUnlocked env 1 c of
        (Error e, c) \<Rightarrow> (Error e, response, c)
      | (OK, c) \<Rightarrow> (OK, response, c))))"

text \<open>RequestVote. The result is \<open>None\<close> when the call waits for the coarse update lock
  (failure detection disabled and the lock held by another request); otherwise it is the
  status, the response as far as it was filled, and the new state.\<close>

definition RequestVote ::
  "'e VoteEnv_scheme \<Rightarrow> RaftConsensus \<Rightarrow> VoteRequestPB
   \<Rightarrow> (Status \<times> VoteResponsePB \<times> RaftConsensus) option" where
  "RequestVote env c request =
    (let response = empty_vote_response\<lparr>vote_responder_uuid := Some (peer_uuid c)\<rparr> in
     if update_lock_held env \<and> \<not> enable_leader_failure_detection env then None
     else if update_lock_held env then
       (case LockForConfigChange env of
          Error e \<Rightarrow> Some (Error e, response, c)
        | OK \<Rightarrow> Some (RequestVoteRespondIsBusy c response))
     else
     (case LockForConfigChange env of
        Error e \<Rightarrow> Some (Error e, response, c)
      | OK \<Rightarrow>
     let c = (if \<not> IsRaftConfigMember (candidate_uuid request) (GetActiveConfigUnlocked c)
              then call (LogVoteRequestFromUnknownPeer (candidate_uuid request)) c else c) in
     if \<not> ignore_live_leader request \<and> now_before (Now env) (withhold_votes_until c)
     then Some (RequestVoteRespondLeaderIsAlive c response)
     else if candidate_term request < current_term c
     then Some (RequestVoteRespondInvalidTerm c response)
     else if candidate_term request = current_term c \<and> voted_for c \<noteq> None
     then (if voted_for c = Some (candidate_uuid request)
           then Some (RequestVoteRespondVoteAlreadyGranted c response)
           else Some (RequestVoteRespondAlreadyVotedForOther c response))
     else
     (case (if current_term c < candidate_term request
            then HandleTermAdvanceUnlocked env c (candidate_term request) else (OK, c)) of
        (Error e, c) \<Rightarrow> Some (Error e, response, c)
      | (OK, c) \<Rightarrow>
     if OpIdLessThan (candidate_last_received request) (GetLatestOpIdFromLog env)
     then Some (RequestVoteRespondLastOpIdTooOld c response)
     else
     let c = c\<lparr>pending_election_opid := None\<rparr>;
         response = (case RemainingOldLeaderLeaseDuration env of
                       Some ms \<Rightarrow> response\<lparr>remaining_leader_lease_duration_ms := Some ms\<rparr>
                     | None \<Rightarrow> response);
         response = (if old_leader_ht_lease_expiration c \<noteq> kMin_PhysicalValueMicros
                     then response\<lparr>leader_ht_lease_expiration :=
                                      Some (old_leader_ht_lease_expiration c)\<rparr>
                     else response)
     in Some (RequestVoteRespondVoteGranted env request c response))))"

text \<open>An example follower for the evaluations below: peer \<open>b\<close> in term 3, which has not
  voted in this term, knows no leader, and may vote (no votes withheld); its log ends at
  (3, 9). The candidate \<open>z\<close> of the example requests is not a member of its config.\<close>

definition example_follower :: RaftConsensus where
  "example_follower =
     \<lparr>peer_uuid = ''b'', current_term = 3, voted_for = None, persisted_term = 3,
      persisted_vote = None, leader_uuid = [],
      committed_config = \<lparr>opid_index = Some 7, peers =
        [\<lparr>permanent_uuid = Some ''a'', member_type = Some VOTER, last_known_addr = Some ''h1''\<rparr>,
         \<lparr>permanent_uuid = Some ''b'', member_type = Some VOTER, last_known_addr = Some ''h2''\<rparr>]\<rparr>,
      pending_config = None, next_index = 0, pending_operations = Map.empty,
      last_received_op_id = \<lparr>op_term = 3, op_index = 9\<rparr>,
      last_received_op_id_current_leader = \<lparr>op_term = 3, op_index = 9\<rparr>,
      last_committed_index = \<lparr>op_term = 3, op_index = 9\<rparr>,
      pending_election_opid = None, rs_state = kRunning,
      old_leader_lease_expiration = None, old_leader_ht_lease_expiration = 500,
      withhold_votes_until = MonoTime_Min, withhold_election_start_until = MonoTime_Min,
      protege_leader_uuid = [], election_lost_by_protege_at = None, calls = []\<rparr>"

definition example_vote_env :: VoteEnv where
  "example_vote_env =
     \<lparr>LockForConfigChange = OK, LockForReplicate = OK, LockForUpdate = OK,
      enable_leader_failure_detection = True, Now = 1000, MessageFrom = (\<lambda>k. OK),
      failure_detector_IsTracking = True, Track = OK, UnRegisterObserver = OK,
      after_stepdown_timeout = 30, Flush = OK, has_lost_leadership_listener = False,
      queue_AppendOperations = (\<lambda>msgs. OK),
      update_lock_held = False, GetLatestOpIdFromLog = \<lparr>op_term = 3, op_index = 9\<rparr>,
      RemainingOldLeaderLeaseDuration = Some 20\<rparr>"

lemmas vote_defs =
  RequestVote_def RequestVoteRespondIsBusy_def RequestVoteRespondDenied_def
  RequestVoteRespondInvalidTerm_def RequestVoteRespondAlreadyVotedForOther_def
  RequestVoteRespondLastOpIdTooOld_def RequestVoteRespondLeaderIsAlive_def
  RequestVoteRespondVoteAlreadyGranted_def RequestVoteRespondVoteGranted_def
  FillVoteResponseVoteDenied_def FillVoteResponseVoteGranted_def empty_vote_response_def
  SnoozeFailureDetectorUnlocked_def SetVotedForCurrentTermUnlocked_def flush_cmeta_def
  call_def

text \<open>C9. With leader failure detection enabled and the coarse update lock held by another
  request, RequestVote does not wait for the lock: it returns at once, leaves the consensus
  state (and with it the persisted term and vote) untouched, and, the state lock being
  granted, replies with a CONSENSUS\_BUSY denial that carries the current term.\<close>

theorem RequestVote_busy_denial:
  assumes "enable_leader_failure_detection env" and "update_lock_held env"
  shows "(\<exists>st response. RequestVote env c request = Some (st, response, c))
    \<and> (LockForConfigChange env = OK \<longrightarrow>
         RequestVote env c request =
           Some (OK,
                 \<lparr>vote_responder_uuid = Some (peer_uuid c),
                  vote_responder_term = Some (current_term c),
                  vote_granted = Some False,
                  vote_error_code = Some CONSENSUS_BUSY,
                  vote_error_status = Some ServiceUnavailable,
                  remaining_leader_lease_duration_ms = None,
                  leader_ht_lease_expiration = None\<rparr>, c))"
  using assms by (cases "LockForConfigChange env") (simp_all add: vote_defs)

theorem RequestVote_busy_denial_witness:
  "RequestVote (example_vote_env\<lparr>update_lock_held := True\<rparr>) example_follower
     \<lparr>candidate_uuid = ''z'', candidate_term = 4,
      candidate_last_received = \<lparr>op_term = 3, op_index = 9\<rparr>, ignore_live_leader = False\<rparr>
   = Some (OK,
           \<lparr>vote_responder_uuid = Some ''b'', vote_responder_term = Some 3,
            vote_granted = Some False, vote_error_code = Some CONSENSUS_BUSY,
            vote_error_status = Some ServiceUnavailable,
            remaining_leader_lease_duration_ms = None,
            leader_ht_lease_expiration = None\<rparr>, example_follower)"
proof -
  have h: "enable_leader_failure_detection (example_vote_env\<lparr>update_lock_held := True\<rparr>)"
    "update_lock_held (example_vote_env\<lparr>update_lock_held := True\<rparr>)"
    "LockForConfigChange (example_vote_env\<lparr>update_lock_held := True\<rparr>) = OK"
    by (simp_all add: example_vote_env_def)
  have s: "peer_uuid example_follower = ''b''" "current_term example_follower = 3"
    by (simp_all add: example_follower_def)
  from RequestVote_busy_denial [OF h(1,2), of example_follower] h(3) s
  show ?thesis by simp
qed


text \<open>What a vote request observably does: the status, the response, and the term and vote
  in memory and on disk afterwards.\<close>

definition vote_outcome ::
  "(Status \<times> VoteResponsePB \<times> RaftConsensus) option
   \<Rightarrow> (Status \<times> VoteResponsePB \<times> int \<times> string option \<times> int \<times> string option) option" where
  "vote_outcome r =
     map_option (\<lambda>(st, response, c).
        (st, response, current_term c, voted_for c, persisted_term c, persisted_vote c)) r"

text \<open>The state with the configs and the record of calls blanked out.\<close>

definition vote_view :: "RaftConsensus \<Rightarrow> RaftConsensus" where
  "vote_view c = c\<lparr>committed_config := \<lparr>opid_index = None, peers = []\<rparr>,
                   pending_config := None, calls := []\<rparr>"

lemma vote_view_cases:
  assumes "vote_view c = vote_view c'"
  obtains cfg pc l where "c' = c\<lparr>committed_config := cfg, pending_config := pc, calls := l\<rparr>"
proof -
  have "c' = c\<lparr>committed_config := committed_config c', pending_config := pending_config c',
               calls := calls c'\<rparr>"
    using assms by (cases c, cases c') (simp add: vote_view_def)
  then show thesis by (rule that)
qed

definition same_step :: "Status \<times> RaftConsensus \<Rightarrow> Status \<times> RaftConsensus \<Rightarrow> bool" where
  "same_step r r' = (fst r = fst r' \<and> vote_view (snd r) = vote_view (snd r'))"

lemma flush_cmeta_view:
  "vote_view c = vote_view c' \<Longrightarrow> same_step (flush_cmeta env c) (flush_cmeta env c')"
  by (erule vote_view_cases)
     (simp add: same_step_def flush_cmeta_def call_def vote_view_def split: Status.split)

lemma SetVotedFor_view:
  "vote_view c = vote_view c' \<Longrightarrow>
   same_step (SetVotedForCurrentTermUnlocked env c u) (SetVotedForCurrentTermUnlocked env c' u)"
  by (erule vote_view_cases)
     (simp add: same_step_def SetVotedForCurrentTermUnlocked_def flush_cmeta_def call_def
        vote_view_def split: Status.split)

lemma Snooze_view:
  "vote_view c = vote_view c' \<Longrightarrow>
   same_step (SnoozeFailureDetectorUnlocked env k c) (SnoozeFailureDetectorUnlocked env k c')"
  by (erule vote_view_cases)
     (simp add: same_step_def SnoozeFailureDetectorUnlocked_def call_def vote_view_def)

lemma SetCurrentTerm_view:
  "vote_view c = vote_view c' \<Longrightarrow>
   same_step (SetCurrentTermUnlocked env c t) (SetCurrentTermUnlocked env c' t)"
  by (erule vote_view_cases)
     (simp add: same_step_def SetCurrentTermUnlocked_def flush_cmeta_def call_def
        vote_view_def split: Status.split)

lemma BecomeReplica_view:
  "vote_view c = vote_view c' \<Longrightarrow>
   same_step (BecomeReplicaUnlocked env c) (BecomeReplicaUnlocked env c')"
  by (erule vote_view_cases)
     (simp add: same_step_def BecomeReplicaUnlocked_def EnsureFailureDetectorEnabledUnlocked_def
        WithholdElectionAfterStepDown_def GetActiveRoleUnlocked_def call_def
        vote_view_def Let_def split: Status.split)


lemma vote_view_fields:
  assumes "vote_view c = vote_view c'"
  shows "current_term c = current_term c'" "voted_for c = voted_for c'"
    "persisted_term c = persisted_term c'" "persisted_vote c = persisted_vote c'"
    "peer_uuid c = peer_uuid c'" "leader_uuid c = leader_uuid c'"
    "withhold_votes_until c = withhold_votes_until c'"
    "old_leader_ht_lease_expiration c = old_leader_ht_lease_expiration c'"
  using assms by (auto elim!: vote_view_cases)

lemma same_stepD:
  assumes "same_step r r'"
  obtains st c c' where "r = (st, c)" "r' = (st, c')" "vote_view c = vote_view c'"
  using assms by (cases r, cases r') (simp add: same_step_def)

lemma HandleTermAdvance_view:
  assumes v: "vote_view c = vote_view c'"
  shows "same_step (HandleTermAdvanceUnlocked env c t) (HandleTermAdvanceUnlocked env c' t)"
proof (cases "t \<le> current_term c")
  case True
  with v vote_view_fields(1) [OF v] show ?thesis
    by (simp add: HandleTermAdvanceUnlocked_def same_step_def)
next
  case False
  note tm = vote_view_fields(1) [OF v]
  have role: "GetActiveRoleUnlocked c = GetActiveRoleUnlocked c'"
    using vote_view_fields(5,6) [OF v] by (simp add: GetActiveRoleUnlocked_def)
  show ?thesis
  proof (cases "GetActiveRoleUnlocked c = LEADER")
    case leader: True
    from BecomeReplica_view [OF v, of env] obtain st c1 c1'
      where r: "BecomeReplicaUnlocked env c = (st, c1)" "BecomeReplicaUnlocked env c' = (st, c1')"
        and v1: "vote_view c1 = vote_view c1'"
      by (rule same_stepD)
    show ?thesis
    proof (cases st)
      case OK
      with False tm role leader r SetCurrentTerm_view [OF v1, of env t] show ?thesis
        by (simp add: HandleTermAdvanceUnlocked_def)
    next
      case (Error e)
      with False tm role leader r v1 show ?thesis
        by (simp add: HandleTermAdvanceUnlocked_def same_step_def)
    qed
  next
    case follower: False
    with False tm role SetCurrentTerm_view [OF v, of env t] show ?thesis
      by (simp add: HandleTermAdvanceUnlocked_def)
  qed
qed

definition same_vote ::
  "Status \<times> VoteResponsePB \<times> RaftConsensus \<Rightarrow> Status \<times> VoteResponsePB \<times> RaftConsensus \<Rightarrow> bool" where
  "same_vote r r' =
     (fst r = fst r' \<and> fst (snd r) = fst (snd r') \<and> vote_view (snd (snd r)) = vote_view (snd (snd r')))"

lemma Denied_view:
  "vote_view c = vote_view c' \<Longrightarrow>
   same_vote (RequestVoteRespondDenied code kind c response)
             (RequestVoteRespondDenied code kind c' response)"
  by (frule vote_view_fields(1))
     (simp add: same_vote_def RequestVoteRespondDenied_def FillVoteResponseVoteDenied_def)

lemma AlreadyGranted_view:
  "vote_view c = vote_view c' \<Longrightarrow>
   same_vote (RequestVoteRespondVoteAlreadyGranted c response)
             (RequestVoteRespondVoteAlreadyGranted c' response)"
  by (frule vote_view_fields(1))
     (simp add: same_vote_def RequestVoteRespondVoteAlreadyGranted_def
        FillVoteResponseVoteGranted_def)

lemma Granted_view:
  assumes v: "vote_view c = vote_view c'"
  shows "same_vote (RequestVoteRespondVoteGranted env request c response)
                   (RequestVoteRespondVoteGranted env request c' response)"
proof -
  from Snooze_view [OF v, of env 0] obtain st1 c1 c1'
    where r1: "SnoozeFailureDetectorUnlocked env 0 c = (st1, c1)"
      "SnoozeFailureDetectorUnlocked env 0 c' = (st1, c1')"
      and v1: "vote_view c1 = vote_view c1'"
    by (rule same_stepD)
  from SetVotedFor_view [OF v1, of env "candidate_uuid request"] obtain st2 c2 c2'
    where r2: "SetVotedForCurrentTermUnlocked env c1 (candidate_uuid request) = (st2, c2)"
      "SetVotedForCurrentTermUnlocked env c1' (candidate_uuid request) = (st2, c2')"
      and v2: "vote_view c2 = vote_view c2'"
    by (rule same_stepD)
  from Snooze_view [OF v2, of env 1] obtain st3 c3 c3'
    where r3: "SnoozeFailureDetectorUnlocked env 1 c2 = (st3, c3)"
      "SnoozeFailureDetectorUnlocked env 1 c2' = (st3, c3')"
      and v3: "vote_view c3 = vote_view c3'"
    by (rule same_stepD)
  note t2 = vote_view_fields(1) [OF v2]
  show ?thesis
    using v1 v2 v3 t2 r1 r2 r3
    by (cases st1; cases st2; cases st3)
       (simp_all add: RequestVoteRespondVoteGranted_def same_vote_def
          FillVoteResponseVoteGranted_def Let_def)
qed

lemma same_vote_outcome:
  "same_vote r r' \<Longrightarrow> vote_outcome (Some r) = vote_outcome (Some r')"
  by (cases r, cases r')
     (auto simp: same_vote_def vote_outcome_def dest: vote_view_fields)

lemma RequestVote_view:
  assumes v: "vote_view c = vote_view c'"
  shows "vote_outcome (RequestVote env c request) = vote_outcome (RequestVote env c' request)"
proof -
  define d where "d = (if \<not> IsRaftConfigMember (candidate_uuid request) (GetActiveConfigUnlocked c)
              then call (LogVoteRequestFromUnknownPeer (candidate_uuid request)) c else c)"
  define d' where "d' = (if \<not> IsRaftConfigMember (candidate_uuid request) (GetActiveConfigUnlocked c')
              then call (LogVoteRequestFromUnknownPeer (candidate_uuid request)) c' else c')"
  have vd: "vote_view d = vote_view d'"
    using v by (elim vote_view_cases) (simp add: d_def d'_def call_def vote_view_def)
  note fd = vote_view_fields [OF vd]
  note f = vote_view_fields [OF v]
  define response where "response = empty_vote_response\<lparr>vote_responder_uuid := Some (peer_uuid c)\<rparr>"
  have response': "empty_vote_response\<lparr>vote_responder_uuid := Some (peer_uuid c')\<rparr> = response"
    by (simp add: response_def f)
  define locked where "locked x =
     (if \<not> ignore_live_leader request \<and> now_before (Now env) (withhold_votes_until x)
     then Some (RequestVoteRespondLeaderIsAlive x response)
     else if candidate_term request < current_term x
     then Some (RequestVoteRespondInvalidTerm x response)
     else if candidate_term request = current_term x \<and> voted_for x \<noteq> None
     then (if voted_for x = Some (candidate_uuid request)
           then Some (RequestVoteRespondVoteAlreadyGranted x response)
           else Some (RequestVoteRespondAlreadyVotedForOther x response))
     else
     (case (if current_term x < candidate_term request
            then HandleTermAdvanceUnlocked env x (candidate_term request) else (OK, x)) of
        (Error e, c) \<Rightarrow> Some (Error e, response, c)
      | (OK, c) \<Rightarrow>
     if OpIdLessThan (candidate_last_received request) (GetLatestOpIdFromLog env)
     then Some (RequestVoteRespondLastOpIdTooOld c response)
     else
     let c = c\<lparr>pending_election_opid := None\<rparr>;
         response = (case RemainingOldLeaderLeaseDuration env of
                       Some ms \<Rightarrow> response\<lparr>remaining_leader_lease_duration_ms := Some ms\<rparr>
                     | None \<Rightarrow> response);
         response = (if old_leader_ht_lease_expiration c \<noteq> kMin_PhysicalValueMicros
                     then response\<lparr>leader_ht_lease_expiration :=
                                      Some (old_leader_ht_lease_expiration c)\<rparr>
                     else response)
     in Some (RequestVoteRespondVoteGranted env request c response)))" for x
  have unfold: "RequestVote env c request =
     (if update_lock_held env \<and> \<not> enable_leader_failure_detection env then None
     else if update_lock_held env then
       (case LockForConfigChange env of
          Error e \<Rightarrow> Some (Error e, response, c)
        | OK \<Rightarrow> Some (RequestVoteRespondIsBusy c response))
     else
     (case LockForConfigChange env of
        Error e \<Rightarrow> Some (Error e, response, c)
      | OK \<Rightarrow> locked d))"
    unfolding RequestVote_def response_def locked_def d_def Let_def by (rule refl)
  have unfold': "RequestVote env c' request =
     (if update_lock_held env \<and> \<not> enable_leader_failure_detection env then None
     else if update_lock_held env then
       (case LockForConfigChange env of
          Error e \<Rightarrow> Some (Error e, response, c')
        | OK \<Rightarrow> Some (RequestVoteRespondIsBusy c' response))
     else
     (case LockForConfigChange env of
        Error e \<Rightarrow> Some (Error e, response, c')
      | OK \<Rightarrow> locked d'))"
    unfolding RequestVote_def response_def locked_def d'_def Let_def f(5) by (rule refl)
  have err: "vote_outcome (Some (Error e, response, c)) = vote_outcome (Some (Error e, response, c'))" for e
    using f by (simp add: vote_outcome_def)
  have busy: "vote_outcome (Some (RequestVoteRespondIsBusy c response))
      = vote_outcome (Some (RequestVoteRespondIsBusy c' response))"
    unfolding RequestVoteRespondIsBusy_def by (rule same_vote_outcome, rule Denied_view, rule v)
  have denied: "vote_view x = vote_view x' \<Longrightarrow>
      vote_outcome (Some (RequestVoteRespondDenied code kind x response))
      = vote_outcome (Some (RequestVoteRespondDenied code kind x' response))" for x x' code kind
    by (rule same_vote_outcome, rule Denied_view)
  have after_advance: "vote_outcome
      (if OpIdLessThan (candidate_last_received request) (GetLatestOpIdFromLog env)
       then Some (RequestVoteRespondLastOpIdTooOld x response)
       else
       let c = x\<lparr>pending_election_opid := None\<rparr>;
         response = (case RemainingOldLeaderLeaseDuration env of
                       Some ms \<Rightarrow> response\<lparr>remaining_leader_lease_duration_ms := Some ms\<rparr>
                     | None \<Rightarrow> response);
         response = (if old_leader_ht_lease_expiration c \<noteq> kMin_PhysicalValueMicros
                     then response\<lparr>leader_ht_lease_expiration :=
                                      Some (old_leader_ht_lease_expiration c)\<rparr>
                     else response)
       in Some (RequestVoteRespondVoteGranted env request c response))
     = vote_outcome
      (if OpIdLessThan (candidate_last_received request) (GetLatestOpIdFromLog env)
       then Some (RequestVoteRespondLastOpIdTooOld x' response)
       else
       let c = x'\<lparr>pending_election_opid := None\<rparr>;
         response = (case RemainingOldLeaderLeaseDuration env of
                       Some ms \<Rightarrow> response\<lparr>remaining_leader_lease_duration_ms := Some ms\<rparr>
                     | None \<Rightarrow> response);
         response = (if old_leader_ht_lease_expiration c \<noteq> kMin_PhysicalValueMicros
                     then response\<lparr>leader_ht_lease_expiration :=
                                      Some (old_leader_ht_lease_expiration c)\<rparr>
                     else response)
       in Some (RequestVoteRespondVoteGranted env request c response))"
    if vx: "vote_view x = vote_view x'" for x x'
  proof (cases "OpIdLessThan (candidate_last_received request) (GetLatestOpIdFromLog env)")
    case True
    with denied [OF vx] show ?thesis by (simp add: RequestVoteRespondLastOpIdTooOld_def)
  next
    case False
    have vy: "vote_view (x\<lparr>pending_election_opid := None\<rparr>)
            = vote_view (x'\<lparr>pending_election_opid := None\<rparr>)"
      using vx by (elim vote_view_cases) (simp add: vote_view_def)
    have ht: "old_leader_ht_lease_expiration x = old_leader_ht_lease_expiration x'"
      by (rule vote_view_fields [OF vx])
    from False ht show ?thesis
      by (simp add: Let_def same_vote_outcome [OF Granted_view [OF vy]])
  qed
  have locked: "vote_outcome (locked d) = vote_outcome (locked d')"
  proof (cases "\<not> ignore_live_leader request \<and> now_before (Now env) (withhold_votes_until d)")
    case True
    with fd denied [OF vd] show ?thesis
      by (auto simp: locked_def RequestVoteRespondLeaderIsAlive_def)
  next
    case alive: False
    show ?thesis
    proof (cases "candidate_term request < current_term d")
      case True
      with alive fd denied [OF vd] show ?thesis
        by (auto simp: locked_def RequestVoteRespondInvalidTerm_def)
    next
      case not_old: False
      show ?thesis
      proof (cases "candidate_term request = current_term d \<and> voted_for d \<noteq> None")
        case True
        with alive not_old fd denied [OF vd]
          same_vote_outcome [OF AlreadyGranted_view [OF vd]] show ?thesis
          by (auto simp: locked_def RequestVoteRespondAlreadyVotedForOther_def)
      next
        case not_voted: False
        show ?thesis
        proof (cases "current_term d < candidate_term request")
          case True
          from HandleTermAdvance_view [OF vd, of env "candidate_term request"]
          obtain st x x' where
            r: "HandleTermAdvanceUnlocked env d (candidate_term request) = (st, x)"
               "HandleTermAdvanceUnlocked env d' (candidate_term request) = (st, x')"
            and vx: "vote_view x = vote_view x'"
            by (rule same_stepD)
          show ?thesis
          proof (cases st)
            case OK
            with alive not_old not_voted True fd r after_advance [OF vx] show ?thesis
              by (auto simp: locked_def)
          next
            case (Error e)
            with alive not_old not_voted True fd r vote_view_fields [OF vx] show ?thesis
              by (auto simp: locked_def vote_outcome_def)
          qed
        next
          case False
          with alive not_old not_voted fd after_advance [OF vd] show ?thesis
            by (auto simp: locked_def)
        qed
      qed
    qed
  qed
  show ?thesis
    unfolding unfold unfold' using err busy locked
    by (simp split: Status.split)
qed


lemmas term_advance_defs =
  HandleTermAdvanceUnlocked_def BecomeReplicaUnlocked_def SetCurrentTermUnlocked_def
  EnsureFailureDetectorEnabledUnlocked_def WithholdElectionAfterStepDown_def
  GetActiveRoleUnlocked_def

lemma example_follower_grants:
  "RequestVote example_vote_env example_follower
     \<lparr>candidate_uuid = ''z'', candidate_term = 4,
      candidate_last_received = \<lparr>op_term = 3, op_index = 9\<rparr>, ignore_live_leader = False\<rparr>
   = Some (OK,
       \<lparr>vote_responder_uuid = Some ''b'', vote_responder_term = Some 4,
        vote_granted = Some True, vote_error_code = None, vote_error_status = None,
        remaining_leader_lease_duration_ms = Some 20,
        leader_ht_lease_expiration = Some 500\<rparr>,
       example_follower
         \<lparr>current_term := 4, voted_for := Some ''z'', persisted_term := 4,
          persisted_vote := Some ''z'', last_received_op_id_current_leader := MinimumOpId,
          pending_election_opid := None,
          calls := [LogVoteRequestFromUnknownPeer ''z'', FlushConsensusMetadata,
                    SnoozeFailureDetector, FlushConsensusMetadata, SnoozeFailureDetector]\<rparr>)"
  by (simp add: vote_defs term_advance_defs example_follower_def example_vote_env_def
        IsRaftConfigMember_def GetActiveConfigUnlocked_def OpIdLessThan_def
        kMin_PhysicalValueMicros_def)

text \<open>C10. The outcome of RequestVote does not depend on the configs of the replica, hence
  not on whether the candidate is a member of the active config: with the committed and the
  pending config replaced by any others, the status, the response, and the resulting term
  and vote are the same. And a candidate that is not a member can be granted the vote: the
  example follower grants it to \<open>z\<close>.\<close>

theorem RequestVote_ignores_membership:
  "vote_outcome (RequestVote env (c\<lparr>committed_config := cfg, pending_config := pc\<rparr>) request)
     = vote_outcome (RequestVote env c request)
   \<and> (\<exists>(env::VoteEnv) c request response c'.
         \<not> IsRaftConfigMember (candidate_uuid request) (GetActiveConfigUnlocked c)
         \<and> RequestVote env c request = Some (OK, response, c')
         \<and> vote_granted response = Some True
         \<and> voted_for c' = Some (candidate_uuid request))"
proof
  have "vote_view (c\<lparr>committed_config := cfg, pending_config := pc\<rparr>) = vote_view c"
    by (simp add: vote_view_def)
  then show "vote_outcome (RequestVote env (c\<lparr>committed_config := cfg, pending_config := pc\<rparr>) request)
     = vote_outcome (RequestVote env c request)"
    by (rule RequestVote_view)
next
  have "\<not> IsRaftConfigMember ''z'' (GetActiveConfigUnlocked example_follower)"
    by (simp add: IsRaftConfigMember_def GetActiveConfigUnlocked_def example_follower_def)
  with example_follower_grants show "\<exists>(env::VoteEnv) c request response c'.
         \<not> IsRaftConfigMember (candidate_uuid request) (GetActiveConfigUnlocked c)
         \<and> RequestVote env c request = Some (OK, response, c')
         \<and> vote_granted response = Some True
         \<and> voted_for c' = Some (candidate_uuid request)"
    by (intro exI [of _ example_vote_env] exI [of _ example_follower]
          exI [of _ "\<lparr>candidate_uuid = ''z'', candidate_term = 4,
            candidate_last_received = \<lparr>op_term = 3, op_index = 9\<rparr>,
            ignore_live_leader = False\<rparr>"]) simp
qed

theorem RequestVote_ignores_membership_witness:
  "vote_outcome (RequestVote example_vote_env
       (example_follower\<lparr>committed_config := \<lparr>opid_index = None, peers = []\<rparr>,
                         pending_config := None\<rparr>)
       \<lparr>candidate_uuid = ''z'', candidate_term = 4,
        candidate_last_received = \<lparr>op_term = 3, op_index = 9\<rparr>, ignore_live_leader = False\<rparr>)
   = Some (OK,
       \<lparr>vote_responder_uuid = Some ''b'', vote_responder_term = Some 4,
        vote_granted = Some True, vote_error_code = None, vote_error_status = None,
        remaining_leader_lease_duration_ms = Some 20,
        leader_ht_lease_expiration = Some 500\<rparr>, 4, Some ''z'', 4, Some ''z'')"
  using RequestVote_ignores_membership
    [where env = example_vote_env and c = example_follower
       and cfg = "\<lparr>opid_index = None, peers = []\<rparr>" and pc = None
       and request = "\<lparr>candidate_uuid = ''z'', candidate_term = 4,
        candidate_last_received = \<lparr>op_term = 3, op_index = 9\<rparr>, ignore_live_leader = False\<rparr>"]
  by (simp add: example_follower_grants vote_outcome_def)

subsection \<open>The order of the vote checks\<close>

datatype VoteVerdict = Deny ConsensusErrorCode | GrantAgain | GrantNew

text \<open>The vote checks as the specification lists them, in its order: the term that is too
  old comes first, the live leader second. The denial for a candidate term below the local
  term is the one RequestVoteRespondInvalidTerm fills in, INVALID\_TERM.\<close>

definition listed_vote_checks ::
  "'e VoteEnv_scheme \<Rightarrow> RaftConsensus \<Rightarrow> VoteRequestPB \<Rightarrow> VoteVerdict" where
  "listed_vote_checks env c request =
     (if candidate_term request < current_term c then Deny INVALID_TERM
      else if \<not> ignore_live_leader request \<and> now_before (Now env) (withhold_votes_until c)
      then Deny LEADER_IS_ALIVE
      else if candidate_term request = current_term c \<and> voted_for c \<noteq> None
      then (if voted_for c = Some (candidate_uuid request) then GrantAgain
            else Deny ALREADY_VOTED)
      else if OpIdLessThan (candidate_last_received request) (GetLatestOpIdFromLog env)
      then Deny LAST_OPID_TOO_OLD
      else GrantNew)"

text \<open>The same checks with the live leader first and the term second.\<close>

definition vote_checks ::
  "'e VoteEnv_scheme \<Rightarrow> RaftConsensus \<Rightarrow> VoteRequestPB \<Rightarrow> VoteVerdict" where
  "vote_checks env c request =
     (if \<not> ignore_live_leader request \<and> now_before (Now env) (withhold_votes_until c)
      then Deny LEADER_IS_ALIVE
      else if candidate_term request < current_term c then Deny INVALID_TERM
      else if candidate_term request = current_term c \<and> voted_for c \<noteq> None
      then (if voted_for c = Some (candidate_uuid request) then GrantAgain
            else Deny ALREADY_VOTED)
      else if OpIdLessThan (candidate_last_received request) (GetLatestOpIdFromLog env)
      then Deny LAST_OPID_TOO_OLD
      else GrantNew)"

text \<open>The state in which RequestVote starts its checks: the state of the call, with the
  log line about a candidate that is not in the active config.\<close>

definition vote_request_noted :: "RaftConsensus \<Rightarrow> VoteRequestPB \<Rightarrow> RaftConsensus" where
  "vote_request_noted c request =
     (if IsRaftConfigMember (candidate_uuid request) (GetActiveConfigUnlocked c) then c
      else call (LogVoteRequestFromUnknownPeer (candidate_uuid request)) c)"

text \<open>What the collaborators must answer for a term advance to go through: a leader has to
  step down first, which fails if the failure detector cannot be made to track the timer or
  if the queue refuses to unregister the observer with anything but NotFound; the new term
  has then to be flushed to disk.\<close>

definition step_down_succeeds :: "'e ConsensusEnv_scheme \<Rightarrow> RaftConsensus \<Rightarrow> bool" where
  "step_down_succeeds env c =
     (GetActiveRoleUnlocked c \<noteq> LEADER
      \<or> ((\<not> enable_leader_failure_detection env \<or> failure_detector_IsTracking env
           \<or> Track env = OK)
         \<and> (UnRegisterObserver env = OK \<or> UnRegisterObserver env = Error NotFound)))"

definition term_advance_succeeds ::
  "'e ConsensusEnv_scheme \<Rightarrow> RaftConsensus \<Rightarrow> VoteRequestPB \<Rightarrow> bool" where
  "term_advance_succeeds env c request =
     (candidate_term request \<le> current_term c \<or> (step_down_succeeds env c \<and> Flush env = OK))"

text \<open>What the collaborators must answer for a new vote to be granted with an OK status:
  the vote is flushed to disk, and the failure detector, if enabled, is snoozed before and
  after.\<close>

definition grant_succeeds :: "'e ConsensusEnv_scheme \<Rightarrow> bool" where
  "grant_succeeds env =
     (Flush env = OK
      \<and> (\<not> enable_leader_failure_detection env
         \<or> (MessageFrom env 0 = OK \<and> MessageFrom env 1 = OK)))"

text \<open>A leader of term 3 (peer \<open>b\<close>): it has voted for itself and withholds its votes for
  ever, as a leader does.\<close>

definition example_vote_leader :: RaftConsensus where
  "example_vote_leader =
     example_follower\<lparr>voted_for := Some ''b'', persisted_vote := Some ''b'',
       leader_uuid := ''b'', withhold_votes_until := MonoTime_Max\<rparr>"

text \<open>C3 fails as stated. A follower of term 3 that has heard from its leader recently
  receives a vote request of term 2, without \<open>ignore_live_leader\<close>. In the listed order the
  term check comes first and denies the vote for the old term; RequestVote tests the live
  leader first, and the denial is LEADER\_IS\_ALIVE.\<close>

theorem RequestVote_listed_order_counterexample:
  "listed_vote_checks example_vote_env
     (example_follower\<lparr>withhold_votes_until := MonoTime_At 2000\<rparr>)
     \<lparr>candidate_uuid = ''a'', candidate_term = 2,
      candidate_last_received = \<lparr>op_term = 3, op_index = 9\<rparr>, ignore_live_leader = False\<rparr>
     = Deny INVALID_TERM
   \<and> RequestVote example_vote_env
     (example_follower\<lparr>withhold_votes_until := MonoTime_At 2000\<rparr>)
     \<lparr>candidate_uuid = ''a'', candidate_term = 2,
      candidate_last_received = \<lparr>op_term = 3, op_index = 9\<rparr>, ignore_live_leader = False\<rparr>
     = Some (OK,
         \<lparr>vote_responder_uuid = Some ''b'', vote_responder_term = Some 3,
          vote_granted = Some False, vote_error_code = Some LEADER_IS_ALIVE,
          vote_error_status = Some InvalidArgument,
          remaining_leader_lease_duration_ms = None, leader_ht_lease_expiration = None\<rparr>,
         example_follower\<lparr>withhold_votes_until := MonoTime_At 2000\<rparr>)"
  by (simp add: listed_vote_checks_def vote_defs example_vote_env_def example_follower_def
      GetActiveConfigUnlocked_def IsRaftConfigMember_def)

lemma HandleTermAdvance_succeeds:
  assumes "current_term c < t" and "step_down_succeeds env c" and "Flush env = OK"
  shows "\<exists>c'. HandleTermAdvanceUnlocked env c t = (OK, c')
    \<and> current_term c' = t \<and> persisted_term c' = t \<and> voted_for c' = None
    \<and> persisted_vote c' = None \<and> leader_uuid c' = []
    \<and> old_leader_ht_lease_expiration c' = old_leader_ht_lease_expiration c
    \<and> peer_uuid c' = peer_uuid c
    \<and> (GetActiveRoleUnlocked c = LEADER \<longrightarrow>
         withhold_votes_until c' = MonoTime_Min
         \<and> SetNonLeaderMode \<in> set (calls c') \<and> PeerManagerClose \<in> set (calls c'))"
  using assms
  by (auto simp: term_advance_defs step_down_succeeds_def flush_cmeta_def call_def Let_def
        split: if_splits Status.splits prod.splits)

lemma HandleTermAdvance_fails:
  assumes "current_term c < t" and "\<not> (step_down_succeeds env c \<and> Flush env = OK)"
  shows "\<exists>e c'. HandleTermAdvanceUnlocked env c t = (Error e, c')
    \<and> persisted_vote c' = persisted_vote c \<and> persisted_term c' = persisted_term c"
  using assms
  by (cases "Flush env"; cases "Track env"; cases "UnRegisterObserver env")
     (auto simp: term_advance_defs step_down_succeeds_def flush_cmeta_def call_def Let_def
        split: if_splits Status.splits prod.splits)

lemma VoteGranted_facts:
  assumes "RequestVoteRespondVoteGranted env request c response = (st, response', c')"
    and "vote_granted response = None"
  shows "(st = OK \<longleftrightarrow> grant_succeeds env)
    \<and> (st = OK \<longrightarrow> vote_granted response' = Some True)
    \<and> (vote_granted response' = Some True \<longrightarrow>
          persisted_vote c' = Some (candidate_uuid request)
          \<and> persisted_term c' = current_term c
          \<and> voted_for c' = Some (candidate_uuid request)
          \<and> vote_responder_term response' = Some (current_term c)
          \<and> FlushConsensusMetadata \<in> set (calls c'))
    \<and> vote_granted response' \<noteq> Some False
    \<and> current_term c' = current_term c
    \<and> vote_error_code response' = vote_error_code response
    \<and> remaining_leader_lease_duration_ms response' = remaining_leader_lease_duration_ms response
    \<and> leader_ht_lease_expiration response' = leader_ht_lease_expiration response
    \<and> leader_uuid c' = leader_uuid c \<and> set (calls c) \<subseteq> set (calls c')"
  using assms
  by (cases "Flush env"; cases "MessageFrom env 0"; cases "MessageFrom env 1")
     (auto simp: RequestVoteRespondVoteGranted_def SnoozeFailureDetectorUnlocked_def
        SetVotedForCurrentTermUnlocked_def flush_cmeta_def call_def Let_def
        FillVoteResponseVoteGranted_def grant_succeeds_def
        split: if_splits Status.splits prod.splits)

text \<open>C3, as amended. Once RequestVote holds the update lock and the state lock, it returns,
  and its outcome is that of the checks in this order: a live leader (votes withheld, and
  \<open>ignore_live_leader\<close> unset) is tested first and denies with LEADER\_IS\_ALIVE; then a
  candidate term below the local term denies with INVALID\_TERM; then, in the local term
  with a vote already cast, the vote is granted again if it was for this candidate and
  denied with ALREADY\_VOTED otherwise. These four answers are OK, carry the local term and
  leave the state as it was (apart from the log line about an unknown candidate). Otherwise
  a candidate term above the local term first advances the local term: a leader steps down
  (the leader uuid is cleared, the queue leaves leader mode, the peers are closed) and the
  new term is persisted; if the step-down or the flush fails, the call fails with no vote
  and nothing new on disk. Then a candidate whose last op id is below the last op id of the
  local log is denied with LAST\_OPID\_TOO\_OLD. Otherwise the vote is granted: the status
  is OK exactly when the flush of the vote and the two snoozes succeed; whenever the
  response grants the vote, the vote and the term are on disk already, and the response
  carries the candidate's term, the old leader's remaining lease and its hybrid-time lease
  expiration.\<close>

theorem RequestVote_checks_in_order:
  assumes lock: "\<not> update_lock_held env" and state_lock: "LockForConfigChange env = OK"
  shows "\<exists>st response c'.
    RequestVote env c request = Some (st, response, c')
    \<and> (\<forall>code. vote_checks env c request = Deny code \<and> code \<noteq> LAST_OPID_TOO_OLD \<longrightarrow>
           st = OK \<and> vote_granted response = Some False
           \<and> vote_error_code response = Some code
           \<and> vote_responder_term response = Some (current_term c)
           \<and> c' = vote_request_noted c request)
    \<and> (vote_checks env c request = GrantAgain \<longrightarrow>
           st = OK \<and> vote_granted response = Some True
           \<and> vote_error_code response = None
           \<and> vote_responder_term response = Some (current_term c)
           \<and> c' = vote_request_noted c request)
    \<and> (vote_checks env c request \<noteq> Deny LEADER_IS_ALIVE
         \<and> current_term c < candidate_term request \<longrightarrow>
           (if step_down_succeeds env c \<and> Flush env = OK
            then current_term c' = candidate_term request
              \<and> persisted_term c' = candidate_term request
              \<and> leader_uuid c' = []
              \<and> (GetActiveRoleUnlocked c = LEADER \<longrightarrow>
                    SetNonLeaderMode \<in> set (calls c') \<and> PeerManagerClose \<in> set (calls c'))
            else st \<noteq> OK \<and> vote_granted response = None
              \<and> persisted_term c' = persisted_term c
              \<and> persisted_vote c' = persisted_vote c))
    \<and> (vote_checks env c request = Deny LAST_OPID_TOO_OLD
         \<and> term_advance_succeeds env c request \<longrightarrow>
           st = OK \<and> vote_granted response = Some False
           \<and> vote_error_code response = Some LAST_OPID_TOO_OLD
           \<and> vote_responder_term response = Some (candidate_term request)
           \<and> current_term c' = candidate_term request
           \<and> voted_for c' = None)
    \<and> (vote_checks env c request = GrantNew \<and> term_advance_succeeds env c request \<longrightarrow>
           (st = OK \<longleftrightarrow> grant_succeeds env)
           \<and> (st = OK \<longrightarrow> vote_granted response = Some True)
           \<and> vote_granted response \<noteq> Some False
           \<and> current_term c' = candidate_term request
           \<and> (vote_granted response = Some True \<longrightarrow>
                 persisted_vote c' = Some (candidate_uuid request)
                 \<and> persisted_term c' = candidate_term request
                 \<and> voted_for c' = Some (candidate_uuid request)
                 \<and> vote_responder_term response = Some (candidate_term request)
                 \<and> remaining_leader_lease_duration_ms response
                     = RemainingOldLeaderLeaseDuration env
                 \<and> leader_ht_lease_expiration response
                     = (if old_leader_ht_lease_expiration c = kMin_PhysicalValueMicros
                        then None else Some (old_leader_ht_lease_expiration c))))"
proof -
  define d where "d = (if \<not> IsRaftConfigMember (candidate_uuid request) (GetActiveConfigUnlocked c)
              then call (LogVoteRequestFromUnknownPeer (candidate_uuid request)) c else c)"
  have fd: "current_term d = current_term c" "voted_for d = voted_for c"
    "withhold_votes_until d = withhold_votes_until c"
    "old_leader_ht_lease_expiration d = old_leader_ht_lease_expiration c"
    "GetActiveRoleUnlocked d = GetActiveRoleUnlocked c"
    "persisted_vote d = persisted_vote c" "persisted_term d = persisted_term c"
    "step_down_succeeds env d = step_down_succeeds env c"
    by (simp_all add: d_def call_def GetActiveRoleUnlocked_def step_down_succeeds_def)
  define response where "response = empty_vote_response\<lparr>vote_responder_uuid := Some (peer_uuid c)\<rparr>"
  have r0: "vote_granted response = None" "vote_error_code response = None"
    "remaining_leader_lease_duration_ms response = None"
    "leader_ht_lease_expiration response = None"
    by (simp_all add: response_def empty_vote_response_def)
  define alive where "alive = (\<not> ignore_live_leader request \<and> now_before (Now env) (withhold_votes_until c))"
  define advance where "advance =
     (if current_term d < candidate_term request
      then HandleTermAdvanceUnlocked env d (candidate_term request) else (OK, d))"
  define granted where "granted x =
     (let c = x\<lparr>pending_election_opid := None\<rparr>;
         response = (case RemainingOldLeaderLeaseDuration env of
                       Some ms \<Rightarrow> response\<lparr>remaining_leader_lease_duration_ms := Some ms\<rparr>
                     | None \<Rightarrow> response);
         response = (if old_leader_ht_lease_expiration c \<noteq> kMin_PhysicalValueMicros
                     then response\<lparr>leader_ht_lease_expiration :=
                                      Some (old_leader_ht_lease_expiration c)\<rparr>
                     else response)
     in RequestVoteRespondVoteGranted env request c response)" for x
  have unfold: "RequestVote env c request =
     (if alive then Some (RequestVoteRespondLeaderIsAlive d response)
     else if candidate_term request < current_term d
     then Some (RequestVoteRespondInvalidTerm d response)
     else if candidate_term request = current_term d \<and> voted_for d \<noteq> None
     then (if voted_for d = Some (candidate_uuid request)
           then Some (RequestVoteRespondVoteAlreadyGranted d response)
           else Some (RequestVoteRespondAlreadyVotedForOther d response))
     else
     (case advance of
        (Error e, c) \<Rightarrow> Some (Error e, response, c)
      | (OK, c) \<Rightarrow>
     if OpIdLessThan (candidate_last_received request) (GetLatestOpIdFromLog env)
     then Some (RequestVoteRespondLastOpIdTooOld c response)
     else Some (granted c)))"
    unfolding RequestVote_def response_def d_def [symmetric] Let_def alive_def advance_def
      granted_def fd(3) [symmetric]
    using lock state_lock by simp
  have dc: "d = vote_request_noted c request"
    by (simp add: d_def vote_request_noted_def)
  note denied_defs = RequestVoteRespondLeaderIsAlive_def RequestVoteRespondInvalidTerm_def
    RequestVoteRespondAlreadyVotedForOther_def RequestVoteRespondLastOpIdTooOld_def
    RequestVoteRespondDenied_def FillVoteResponseVoteDenied_def
    RequestVoteRespondVoteAlreadyGranted_def FillVoteResponseVoteGranted_def
  show ?thesis
  proof (cases alive)
    case True
    then show ?thesis
      unfolding unfold dc [symmetric]
      using fd r0 True [unfolded alive_def]
      by (simp add: denied_defs vote_checks_def)
  next
    case not_alive: False
    show ?thesis
    proof (cases "candidate_term request < current_term c")
      case True
      then show ?thesis
        unfolding unfold dc [symmetric]
        using fd r0 not_alive not_alive [unfolded alive_def]
        by (auto simp: denied_defs vote_checks_def)
    next
      case not_old: False
      show ?thesis
      proof (cases "candidate_term request = current_term c \<and> voted_for c \<noteq> None")
        case True
        then show ?thesis
          unfolding unfold dc [symmetric]
          using fd r0 not_alive [unfolded alive_def] not_alive
          by (auto simp: denied_defs vote_checks_def)
      next
        case not_voted: False
        have verdict: "vote_checks env c request =
            (if OpIdLessThan (candidate_last_received request) (GetLatestOpIdFromLog env)
             then Deny LAST_OPID_TOO_OLD else GrantNew)"
          using not_alive not_old not_voted by (auto simp: vote_checks_def alive_def)
        have pre: "\<not> alive" "\<not> candidate_term request < current_term d"
          "\<not> (candidate_term request = current_term d \<and> voted_for d \<noteq> None)"
          using not_alive not_old not_voted fd by simp_all
        show ?thesis
        proof (cases "term_advance_succeeds env c request")
          case False
          then have gt: "current_term c < candidate_term request"
            and bad: "\<not> (step_down_succeeds env d \<and> Flush env = OK)"
            by (auto simp: term_advance_succeeds_def fd)
          from HandleTermAdvance_fails [OF gt [folded fd(1)] bad] obtain e x where
            adv: "advance = (Error e, x)"
            and x: "persisted_vote x = persisted_vote c" "persisted_term x = persisted_term c"
            using gt by (auto simp: advance_def fd)
          have R: "RequestVote env c request = Some (Error e, response, x)"
            unfolding unfold using adv pre by auto
          from gt r0 verdict x False bad show ?thesis
            unfolding R by (auto simp: fd)
        next
          case ok: True
          have "\<exists>x. advance = (OK, x)
            \<and> current_term x = candidate_term request
            \<and> old_leader_ht_lease_expiration x = old_leader_ht_lease_expiration c
            \<and> voted_for x = None
            \<and> persisted_term x = (if current_term c < candidate_term request
                                  then candidate_term request else persisted_term c)
            \<and> (current_term c < candidate_term request \<longrightarrow>
                 leader_uuid x = []
                 \<and> (GetActiveRoleUnlocked c = LEADER \<longrightarrow>
                       SetNonLeaderMode \<in> set (calls x) \<and> PeerManagerClose \<in> set (calls x)))"
          proof (cases "current_term c < candidate_term request")
            case True
            with ok have s: "step_down_succeeds env d" "Flush env = OK"
              by (auto simp: term_advance_succeeds_def fd)
            from HandleTermAdvance_succeeds [OF True [folded fd(1)] s] True fd
            show ?thesis by (auto simp: advance_def)
          next
            case False
            with not_old not_voted fd show ?thesis by (auto simp: advance_def)
          qed
          then obtain x where adv: "advance = (OK, x)"
            and x: "current_term x = candidate_term request"
              "old_leader_ht_lease_expiration x = old_leader_ht_lease_expiration c"
              "voted_for x = None"
              "persisted_term x = (if current_term c < candidate_term request
                                  then candidate_term request else persisted_term c)"
              "current_term c < candidate_term request \<longrightarrow>
                 leader_uuid x = []
                 \<and> (GetActiveRoleUnlocked c = LEADER \<longrightarrow>
                       SetNonLeaderMode \<in> set (calls x) \<and> PeerManagerClose \<in> set (calls x))"
            by blast
          have good: "current_term c < candidate_term request \<longrightarrow>
              step_down_succeeds env c \<and> Flush env = OK"
            using ok by (auto simp: term_advance_succeeds_def)
          show ?thesis
          proof (cases "OpIdLessThan (candidate_last_received request) (GetLatestOpIdFromLog env)")
            case True
            have R: "RequestVote env c request =
                Some (OK, response\<lparr>vote_responder_term := Some (current_term x),
                       vote_granted := Some False, vote_error_code := Some LAST_OPID_TOO_OLD,
                       vote_error_status := Some InvalidArgument\<rparr>, x)"
              unfolding unfold using adv pre True by (auto simp: denied_defs)
            from True x verdict ok good show ?thesis
              unfolding R by auto
          next
            case False
            obtain st response' c' where g: "granted x = (st, response', c')"
              by (cases "granted x")
            define response1 where "response1 =
              (if old_leader_ht_lease_expiration (x\<lparr>pending_election_opid := None\<rparr>)
                    \<noteq> kMin_PhysicalValueMicros
               then (case RemainingOldLeaderLeaseDuration env of
                       Some ms \<Rightarrow> response\<lparr>remaining_leader_lease_duration_ms := Some ms\<rparr>
                     | None \<Rightarrow> response)
                    \<lparr>leader_ht_lease_expiration :=
                       Some (old_leader_ht_lease_expiration (x\<lparr>pending_election_opid := None\<rparr>))\<rparr>
               else (case RemainingOldLeaderLeaseDuration env of
                       Some ms \<Rightarrow> response\<lparr>remaining_leader_lease_duration_ms := Some ms\<rparr>
                     | None \<Rightarrow> response))"
            have g': "RequestVoteRespondVoteGranted env request
                        (x\<lparr>pending_election_opid := None\<rparr>) response1 = (st, response', c')"
              using g unfolding granted_def response1_def Let_def .
            have r1: "vote_granted response1 = None"
              "remaining_leader_lease_duration_ms response1 = RemainingOldLeaderLeaseDuration env"
              "leader_ht_lease_expiration response1 =
                 (if old_leader_ht_lease_expiration c = kMin_PhysicalValueMicros
                  then None else Some (old_leader_ht_lease_expiration c))"
              using r0 x by (auto simp: response1_def Let_def split: option.splits)
            from VoteGranted_facts [OF g' r1(1)] r1 x
            have facts: "st = OK \<longleftrightarrow> grant_succeeds env"
              "st = OK \<longrightarrow> vote_granted response' = Some True"
              "vote_granted response' \<noteq> Some False"
              "vote_granted response' = Some True \<longrightarrow>
                 persisted_vote c' = Some (candidate_uuid request)
                 \<and> persisted_term c' = candidate_term request
                 \<and> voted_for c' = Some (candidate_uuid request)
                 \<and> vote_responder_term response' = Some (candidate_term request)"
              "current_term c' = candidate_term request"
              "remaining_leader_lease_duration_ms response' = RemainingOldLeaderLeaseDuration env"
              "leader_ht_lease_expiration response' =
                 (if old_leader_ht_lease_expiration c = kMin_PhysicalValueMicros
                  then None else Some (old_leader_ht_lease_expiration c))"
              "leader_uuid c' = leader_uuid x" "set (calls x) \<subseteq> set (calls c')"
              by simp_all
            have tail: "persisted_term c' =
                (if vote_granted response' = Some True then candidate_term request
                 else persisted_term x)"
              using g' r1(1) x(1)
              by (cases "Flush env"; cases "MessageFrom env 0"; cases "MessageFrom env 1")
                 (auto simp: RequestVoteRespondVoteGranted_def SnoozeFailureDetectorUnlocked_def
                    SetVotedForCurrentTermUnlocked_def flush_cmeta_def call_def Let_def
                    FillVoteResponseVoteGranted_def
                    split: if_splits Status.splits prod.splits)
            have R: "RequestVote env c request = Some (st, response', c')"
              unfolding unfold using adv pre False g by auto
            from facts x verdict False ok good tail show ?thesis
              unfolding R by auto
          qed
        qed
      qed
    qed
  qed
qed

theorem RequestVote_checks_in_order_witness:
  "vote_checks example_vote_env example_vote_leader
     \<lparr>candidate_uuid = ''a'', candidate_term = 4,
      candidate_last_received = \<lparr>op_term = 3, op_index = 9\<rparr>, ignore_live_leader = True\<rparr>
     = GrantNew
   \<and> GetActiveRoleUnlocked example_vote_leader = LEADER
   \<and> (\<exists>response c'.
        RequestVote example_vote_env example_vote_leader
          \<lparr>candidate_uuid = ''a'', candidate_term = 4,
           candidate_last_received = \<lparr>op_term = 3, op_index = 9\<rparr>, ignore_live_leader = True\<rparr>
          = Some (OK, response, c')
        \<and> vote_granted response = Some True \<and> vote_responder_term response = Some 4
        \<and> current_term c' = 4 \<and> persisted_term c' = 4 \<and> persisted_vote c' = Some ''a''
        \<and> leader_uuid c' = [] \<and> SetNonLeaderMode \<in> set (calls c')
        \<and> PeerManagerClose \<in> set (calls c')
        \<and> remaining_leader_lease_duration_ms response = Some 20
        \<and> leader_ht_lease_expiration response = Some 500)
   \<and> vote_checks example_vote_env example_vote_leader
     \<lparr>candidate_uuid = ''a'', candidate_term = 2,
      candidate_last_received = \<lparr>op_term = 3, op_index = 9\<rparr>, ignore_live_leader = False\<rparr>
     = Deny LEADER_IS_ALIVE
   \<and> (\<exists>response.
        RequestVote example_vote_env example_vote_leader
          \<lparr>candidate_uuid = ''a'', candidate_term = 2,
           candidate_last_received = \<lparr>op_term = 3, op_index = 9\<rparr>, ignore_live_leader = False\<rparr>
          = Some (OK, response, example_vote_leader)
        \<and> vote_granted response = Some False
        \<and> vote_error_code response = Some LEADER_IS_ALIVE
        \<and> vote_responder_term response = Some 3)
   \<and> vote_checks example_vote_env example_follower
     \<lparr>candidate_uuid = ''a'', candidate_term = 2,
      candidate_last_received = \<lparr>op_term = 3, op_index = 9\<rparr>, ignore_live_leader = False\<rparr>
     = Deny INVALID_TERM
   \<and> (\<exists>response.
        RequestVote example_vote_env example_follower
          \<lparr>candidate_uuid = ''a'', candidate_term = 2,
           candidate_last_received = \<lparr>op_term = 3, op_index = 9\<rparr>, ignore_live_leader = False\<rparr>
          = Some (OK, response, example_follower)
        \<and> vote_granted response = Some False
        \<and> vote_error_code response = Some INVALID_TERM
        \<and> vote_responder_term response = Some 3)"
proof -
  let ?r1 = "\<lparr>candidate_uuid = ''a'', candidate_term = 4,
      candidate_last_received = \<lparr>op_term = 3, op_index = 9\<rparr>, ignore_live_leader = True\<rparr>"
  let ?r2 = "\<lparr>candidate_uuid = ''a'', candidate_term = 2,
      candidate_last_received = \<lparr>op_term = 3, op_index = 9\<rparr>, ignore_live_leader = False\<rparr>"
  have h: "\<not> update_lock_held example_vote_env" "LockForConfigChange example_vote_env = OK"
    by (simp_all add: example_vote_env_def)
  have v1: "vote_checks example_vote_env example_vote_leader ?r1 = GrantNew"
    by (simp add: vote_checks_def example_vote_env_def example_vote_leader_def
          example_follower_def OpIdLessThan_def)
  have v2: "vote_checks example_vote_env example_vote_leader ?r2 = Deny LEADER_IS_ALIVE"
    by (simp add: vote_checks_def example_vote_env_def example_vote_leader_def
          example_follower_def)
  have v3: "vote_checks example_vote_env example_follower ?r2 = Deny INVALID_TERM"
    by (simp add: vote_checks_def example_vote_env_def example_follower_def)
  have l: "GetActiveRoleUnlocked example_vote_leader = LEADER"
    "current_term example_vote_leader = 3"
    "old_leader_ht_lease_expiration example_vote_leader = 500"
    "vote_request_noted example_vote_leader ?r2 = example_vote_leader"
    by (simp_all add: example_vote_leader_def example_follower_def GetActiveRoleUnlocked_def
          vote_request_noted_def IsRaftConfigMember_def GetActiveConfigUnlocked_def)
  have f: "current_term example_follower = 3"
    "vote_request_noted example_follower ?r2 = example_follower"
    by (simp_all add: example_follower_def vote_request_noted_def IsRaftConfigMember_def
          GetActiveConfigUnlocked_def)
  have e: "RemainingOldLeaderLeaseDuration example_vote_env = Some 20"
    "step_down_succeeds example_vote_env example_vote_leader"
    "Flush example_vote_env = OK"
    "term_advance_succeeds example_vote_env example_vote_leader ?r1"
    "grant_succeeds example_vote_env"
    by (simp_all add: example_vote_env_def step_down_succeeds_def term_advance_succeeds_def
          grant_succeeds_def)
  from RequestVote_checks_in_order [OF h, of example_vote_leader ?r1] v1 l e
  have g: "\<exists>response c'.
        RequestVote example_vote_env example_vote_leader ?r1 = Some (OK, response, c')
        \<and> vote_granted response = Some True \<and> vote_responder_term response = Some 4
        \<and> current_term c' = 4 \<and> persisted_term c' = 4 \<and> persisted_vote c' = Some ''a''
        \<and> leader_uuid c' = [] \<and> SetNonLeaderMode \<in> set (calls c')
        \<and> PeerManagerClose \<in> set (calls c')
        \<and> remaining_leader_lease_duration_ms response = Some 20
        \<and> leader_ht_lease_expiration response = Some 500"
    by (auto simp: kMin_PhysicalValueMicros_def)
  from RequestVote_checks_in_order [OF h, of example_vote_leader ?r2] v2 l
  have d1: "\<exists>response.
        RequestVote example_vote_env example_vote_leader ?r2
          = Some (OK, response, example_vote_leader)
        \<and> vote_granted response = Some False
        \<and> vote_error_code response = Some LEADER_IS_ALIVE
        \<and> vote_responder_term response = Some 3"
    by auto
  from RequestVote_checks_in_order [OF h, of example_follower ?r2] v3 f
  have d2: "\<exists>response.
        RequestVote example_vote_env example_follower ?r2 = Some (OK, response, example_follower)
        \<and> vote_granted response = Some False
        \<and> vote_error_code response = Some INVALID_TERM
        \<and> vote_responder_term response = Some 3"
    by auto
  from v1 l(1) g v2 d1 v3 d2 show ?thesis by blast
qed

section \<open>ReplicaState: op ids and pending operations\<close>

text \<open>The code of the replica state (replica\_state.cc) is not among the sources. Its
  methods are modelled from the specification's description of ReplicaState and from the
  comments of replica\_state.h.\<close>

text \<open>Modelled from the spec: \<open>NewIdUnlocked\<close> allocates the next leader index in the
  current term.\<close>

definition NewIdUnlocked :: "'a ReplicaState_scheme \<Rightarrow> OpId \<times> 'a ReplicaState_scheme" where
  "NewIdUnlocked s =
     (\<lparr>op_term = current_term s, op_index = next_index s\<rparr>, s\<lparr>next_index := next_index s + 1\<rparr>)"

text \<open>Modelled from the spec: \<open>CancelPendingOperation\<close> restores the id generator to the
  state it was in before generating the id, so that the id is reused later, and removes the
  pending operation with that index. \<open>should_exist\<close> is for debugging only.\<close>

definition CancelPendingOperation ::
  "'a ReplicaState_scheme \<Rightarrow> OpId \<Rightarrow> bool \<Rightarrow> 'a ReplicaState_scheme" where
  "CancelPendingOperation s op_id should_exist =
     s\<lparr>next_index := op_index op_id,
       pending_operations := (pending_operations s)(op_index op_id := None)\<rparr>"

text \<open>Modelled from the spec: \<open>AddPendingOperation\<close> inserts the round by index; it fails
  if an entry with the same index already exists with a different term, or if the index is
  at or below the committed index.\<close>

definition AddPendingOperation ::
  "'a ReplicaState_scheme \<Rightarrow> ReplicateMsg \<Rightarrow> Status \<times> 'a ReplicaState_scheme" where
  "AddPendingOperation s round =
     (if op_index (msg_id round) \<le> op_index (last_committed_index s) then (Error IllegalState, s)
      else
        (case pending_operations s (op_index (msg_id round)) of
           Some existing \<Rightarrow>
             if op_term (msg_id existing) \<noteq> op_term (msg_id round) then (Error IllegalState, s)
             else (OK, s\<lparr>pending_operations :=
                           (pending_operations s)(op_index (msg_id round) \<mapsto> round)\<rparr>)
         | None \<Rightarrow>
             (OK, s\<lparr>pending_operations :=
                      (pending_operations s)(op_index (msg_id round) \<mapsto> round)\<rparr>)))"

text \<open>Modelled from the spec: \<open>UpdateLastReceivedOpIdUnlocked\<close> updates the last received
  operation, and with it the last operation received from the current leader.\<close>

definition UpdateLastReceivedOpIdUnlocked ::
  "'a ReplicaState_scheme \<Rightarrow> OpId \<Rightarrow> 'a ReplicaState_scheme" where
  "UpdateLastReceivedOpIdUnlocked s op_id =
     s\<lparr>last_received_op_id := op_id, last_received_op_id_current_leader := op_id\<rparr>"

section \<open>RaftConsensus: appending leader-side rounds\<close>

text \<open>A leader-side round before it is appended: its message has no op id yet.\<close>

record ConsensusRound =
  round_op_type :: OperationType
  round_hybrid_time :: nat
  has_append_callback :: bool

definition RollbackIdAndDeleteOpId ::
  "RaftConsensus \<Rightarrow> ReplicateMsg \<Rightarrow> bool \<Rightarrow> RaftConsensus" where
  "RollbackIdAndDeleteOpId c replicate_msg should_exists =
     call (CancelPendingOperationCall (msg_id replicate_msg))
          (CancelPendingOperation c (msg_id replicate_msg) should_exists)"

text \<open>The first loop of AppendNewRoundsToQueueUnlocked: every round gets the next id and
  the committed op id, its append callback runs, and it is added to the pending operations.
  \<open>added\<close> are the messages of the rounds handled so far. When adding fails, the ids are
  released from the current round back to the first.\<close>

fun add_rounds ::
  "RaftConsensus \<Rightarrow> ReplicateMsg list \<Rightarrow> ConsensusRound list
   \<Rightarrow> Status \<times> RaftConsensus \<times> ReplicateMsg list" where
  "add_rounds c added [] = (OK, c, added)"
| "add_rounds c added (round # rounds) =
     (case NewIdUnlocked c of (new_id, c) \<Rightarrow>
      let replicate_msg =
            \<lparr>msg_id = new_id, op_type = round_op_type round,
             hybrid_time = round_hybrid_time round,
             committed_op_id = Some (last_committed_index c)\<rparr>;
          c = (if has_append_callback round then call HandleConsensusAppend c else c)
      in case AddPendingOperation c replicate_msg of
           (Error e, c) \<Rightarrow>
             (Error e,
              fold (\<lambda>m c. RollbackIdAndDeleteOpId c m False) (rev (added @ [replicate_msg])) c,
              added @ [replicate_msg])
         | (OK, c) \<Rightarrow> add_rounds c (added @ [replicate_msg]) rounds)"

text \<open>The result is \<open>None\<close> where the code reads \<open>rounds.back()\<close> of an empty batch.\<close>

definition AppendNewRoundsToQueueUnlocked ::
  "'e ConsensusEnv_scheme \<Rightarrow> RaftConsensus \<Rightarrow> ConsensusRound list
   \<Rightarrow> (Status \<times> RaftConsensus) option" where
  "AppendNewRoundsToQueueUnlocked env c rounds =
     (case add_rounds c [] rounds of
        (Error e, c, replicate_msgs) \<Rightarrow> Some (Error e, c)
      | (OK, c, replicate_msgs) \<Rightarrow>
          let s = queue_AppendOperations env replicate_msgs;
              c = call (QueueAppendOperations replicate_msgs) c;
              c = (if s = Error ServiceUnavailable
                   then fold (\<lambda>m c. RollbackIdAndDeleteOpId c m True) (rev replicate_msgs) c
                   else c)
          in case s of
               Error e \<Rightarrow> Some (Error e, c)
             | OK \<Rightarrow>
                 if replicate_msgs = [] then None
                 else Some (OK, UpdateLastReceivedOpIdUnlocked c (msg_id (last replicate_msgs))))"

text \<open>The messages that a batch gets: consecutive indices from the next index on, in the
  current term, stamped with the committed op id.\<close>

fun batch_msgs :: "int \<Rightarrow> OpId \<Rightarrow> int \<Rightarrow> ConsensusRound list \<Rightarrow> ReplicateMsg list" where
  "batch_msgs t committed n [] = []"
| "batch_msgs t committed n (round # rounds) =
     \<lparr>msg_id = \<lparr>op_term = t, op_index = n\<rparr>, op_type = round_op_type round,
      hybrid_time = round_hybrid_time round, committed_op_id = Some committed\<rparr>
     # batch_msgs t committed (n + 1) rounds"

fun add_all_pending :: "ReplicateMsg list \<Rightarrow> (int \<rightharpoonup> ReplicateMsg) \<Rightarrow> (int \<rightharpoonup> ReplicateMsg)" where
  "add_all_pending [] p = p"
| "add_all_pending (m # ms) p = add_all_pending ms (p(op_index (msg_id m) \<mapsto> m))"

definition append_callbacks :: "ConsensusRound list \<Rightarrow> ConsensusCall list" where
  "append_callbacks rounds = map (\<lambda>r. HandleConsensusAppend) (filter has_append_callback rounds)"

lemma add_rounds_ok:
  assumes "\<forall>i\<ge>next_index c. pending_operations c i = None"
    and "op_index (last_committed_index c) < next_index c"
  shows "add_rounds c added rounds =
    (OK,
     c\<lparr>next_index := next_index c + int (length rounds),
       pending_operations := add_all_pending
          (batch_msgs (current_term c) (last_committed_index c) (next_index c) rounds)
          (pending_operations c),
       calls := calls c @ append_callbacks rounds\<rparr>,
     added @ batch_msgs (current_term c) (last_committed_index c) (next_index c) rounds)"
  using assms
proof (induction rounds arbitrary: c added)
  case Nil
  then show ?case by (simp add: append_callbacks_def)
next
  case (Cons round rounds)
  let ?m = "\<lparr>msg_id = \<lparr>op_term = current_term c, op_index = next_index c\<rparr>,
             op_type = round_op_type round, hybrid_time = round_hybrid_time round,
             committed_op_id = Some (last_committed_index c)\<rparr>"
  let ?c = "(if has_append_callback round
             then call HandleConsensusAppend (c\<lparr>next_index := next_index c + 1\<rparr>)
             else c\<lparr>next_index := next_index c + 1\<rparr>)
            \<lparr>pending_operations := (pending_operations c)(next_index c \<mapsto> ?m)\<rparr>"
  have inv: "\<forall>i\<ge>next_index ?c. pending_operations ?c i = None"
    "op_index (last_committed_index ?c) < next_index ?c"
    using Cons.prems by (auto simp: call_def)
  have step: "add_rounds c added (round # rounds) = add_rounds ?c (added @ [?m]) rounds"
    using Cons.prems
    by (simp add: NewIdUnlocked_def AddPendingOperation_def call_def Let_def)
  show ?case
    unfolding step Cons.IH [OF inv]
    by (simp add: call_def append_callbacks_def add.assoc)
qed


lemma rollback_batch:
  assumes "\<forall>i\<ge>n. p i = None"
  shows "fold (\<lambda>m c. RollbackIdAndDeleteOpId c m b) (rev (batch_msgs t cm n rounds))
           (c\<lparr>next_index := n + int (length rounds),
              pending_operations := add_all_pending (batch_msgs t cm n rounds) p,
              calls := l\<rparr>)
         = c\<lparr>next_index := n, pending_operations := p,
             calls := l @ map (\<lambda>m. CancelPendingOperationCall (msg_id m))
                           (rev (batch_msgs t cm n rounds))\<rparr>"
  using assms
proof (induction rounds arbitrary: n p)
  case Nil
  then show ?case by simp
next
  case (Cons round rounds)
  let ?m = "\<lparr>msg_id = \<lparr>op_term = t, op_index = n\<rparr>, op_type = round_op_type round,
      hybrid_time = round_hybrid_time round, committed_op_id = Some cm\<rparr>"
  let ?f = "\<lambda>m c. RollbackIdAndDeleteOpId c m b"
  let ?rest = "batch_msgs t cm (n + 1) rounds"
  have inv: "\<forall>i\<ge>n + 1. (p(n \<mapsto> ?m)) i = None"
    using Cons.prems by simp
  have none: "p n = None" using Cons.prems by simp
  have restore: "p(n := None) = p"
    using none by (simp add: fun_upd_idem)
  have start: "c\<lparr>next_index := n + int (length (round # rounds)),
              pending_operations := add_all_pending (batch_msgs t cm n (round # rounds)) p,
              calls := l\<rparr>
      = c\<lparr>next_index := (n + 1) + int (length rounds),
              pending_operations := add_all_pending ?rest (p(n \<mapsto> ?m)),
              calls := l\<rparr>"
    by (simp add: add.assoc)
  have order: "fold ?f (rev (batch_msgs t cm n (round # rounds))) x
      = RollbackIdAndDeleteOpId (fold ?f (rev ?rest) x) ?m b" for x
    by simp
  have last_step: "RollbackIdAndDeleteOpId
        (c\<lparr>next_index := n + 1, pending_operations := p(n \<mapsto> ?m),
           calls := l @ map (\<lambda>m. CancelPendingOperationCall (msg_id m)) (rev ?rest)\<rparr>) ?m b
      = c\<lparr>next_index := n, pending_operations := p,
             calls := l @ map (\<lambda>m. CancelPendingOperationCall (msg_id m))
                           (rev (batch_msgs t cm n (round # rounds)))\<rparr>"
    unfolding RollbackIdAndDeleteOpId_def CancelPendingOperation_def call_def
    by (simp add: restore)
  show ?case
    unfolding start order Cons.IH [OF inv] by (rule last_step)
qed

text \<open>An example leader for the evaluations below: peer \<open>a\<close> leads term 3, everything up
  to index 9 is committed, nothing is pending, and the next index is 10.\<close>

definition example_leader_consensus :: RaftConsensus where
  "example_leader_consensus =
     \<lparr>peer_uuid = ''a'', current_term = 3, voted_for = Some ''a'', persisted_term = 3,
      persisted_vote = Some ''a'', leader_uuid = ''a'',
      committed_config = \<lparr>opid_index = Some 7, peers =
        [\<lparr>permanent_uuid = Some ''a'', member_type = Some VOTER, last_known_addr = Some ''h1''\<rparr>,
         \<lparr>permanent_uuid = Some ''b'', member_type = Some VOTER, last_known_addr = Some ''h2''\<rparr>]\<rparr>,
      pending_config = None, next_index = 10, pending_operations = Map.empty,
      last_received_op_id = \<lparr>op_term = 3, op_index = 9\<rparr>,
      last_received_op_id_current_leader = \<lparr>op_term = 3, op_index = 9\<rparr>,
      last_committed_index = \<lparr>op_term = 3, op_index = 9\<rparr>,
      pending_election_opid = None, rs_state = kRunning,
      old_leader_lease_expiration = None, old_leader_ht_lease_expiration = 0,
      withhold_votes_until = MonoTime_Max, withhold_election_start_until = MonoTime_Min,
      protege_leader_uuid = [], election_lost_by_protege_at = None, calls = []\<rparr>"

definition example_full_queue_env :: ConsensusEnv where
  "example_full_queue_env =
     \<lparr>LockForConfigChange = OK, LockForReplicate = OK, LockForUpdate = OK,
      enable_leader_failure_detection = True, Now = 1000, MessageFrom = (\<lambda>k. OK),
      failure_detector_IsTracking = False, Track = OK, UnRegisterObserver = OK,
      after_stepdown_timeout = 30, Flush = OK, has_lost_leadership_listener = False,
      queue_AppendOperations = (\<lambda>msgs. Error ServiceUnavailable)\<rparr>"

text \<open>C4. On a leader whose pending operations all lie below its next index and whose
  committed index lies below it too, when the queue refuses the batch with
  ServiceUnavailable, AppendNewRoundsToQueueUnlocked returns that error, and every op id it
  had allocated for the batch has been rolled back, last allocated first: apart from the
  record of the calls made, the state is the one before the call; in particular the next
  index and the pending operations are unchanged, and the next batch gets the same ids.\<close>

theorem AppendNewRoundsToQueueUnlocked_rolls_back:
  assumes "\<forall>i\<ge>next_index c. pending_operations c i = None"
    and "op_index (last_committed_index c) < next_index c"
    and "queue_AppendOperations env
           (batch_msgs (current_term c) (last_committed_index c) (next_index c) rounds)
         = Error ServiceUnavailable"
  shows "\<exists>c'. AppendNewRoundsToQueueUnlocked env c rounds = Some (Error ServiceUnavailable, c')
    \<and> c'\<lparr>calls := calls c\<rparr> = c
    \<and> next_index c' = next_index c
    \<and> pending_operations c' = pending_operations c
    \<and> calls c' = calls c @ append_callbacks rounds
         @ [QueueAppendOperations
              (batch_msgs (current_term c) (last_committed_index c) (next_index c) rounds)]
         @ map (\<lambda>m. CancelPendingOperationCall (msg_id m))
             (rev (batch_msgs (current_term c) (last_committed_index c) (next_index c) rounds))
    \<and> fst (NewIdUnlocked c') = fst (NewIdUnlocked c)
    \<and> snd (snd (add_rounds c' [] next_rounds)) = snd (snd (add_rounds c [] next_rounds))"
proof -
  let ?msgs = "batch_msgs (current_term c) (last_committed_index c) (next_index c) rounds"
  let ?c' = "c\<lparr>calls := calls c @ append_callbacks rounds @ [QueueAppendOperations ?msgs]
         @ map (\<lambda>m. CancelPendingOperationCall (msg_id m)) (rev ?msgs)\<rparr>"
  have rb: "fold (\<lambda>m c. RollbackIdAndDeleteOpId c m True) (rev ?msgs)
      (c\<lparr>next_index := next_index c + int (length rounds),
         pending_operations := add_all_pending ?msgs (pending_operations c),
         calls := calls c @ append_callbacks rounds @ [QueueAppendOperations ?msgs]\<rparr>)
     = ?c'"
    using rollback_batch [OF assms(1), where b = True and t = "current_term c"
        and cm = "last_committed_index c" and rounds = rounds and c = c
        and l = "calls c @ append_callbacks rounds @ [QueueAppendOperations ?msgs]"]
    by simp
  have run: "AppendNewRoundsToQueueUnlocked env c rounds = Some (Error ServiceUnavailable, ?c')"
    using assms(3) rb
    by (simp add: AppendNewRoundsToQueueUnlocked_def add_rounds_ok [OF assms(1,2)] call_def)
  have inv': "\<forall>i\<ge>next_index ?c'. pending_operations ?c' i = None"
    "op_index (last_committed_index ?c') < next_index ?c'"
    using assms(1,2) by simp_all
  have next_batch: "snd (snd (add_rounds ?c' [] next_rounds)) = snd (snd (add_rounds c [] next_rounds))"
    unfolding add_rounds_ok [OF assms(1,2)] add_rounds_ok [OF inv'] by simp
  show ?thesis
    using run next_batch by (simp add: NewIdUnlocked_def)
qed

theorem AppendNewRoundsToQueueUnlocked_rolls_back_witness:
  "AppendNewRoundsToQueueUnlocked example_full_queue_env example_leader_consensus
     [\<lparr>round_op_type = WRITE_OP, round_hybrid_time = 70, has_append_callback = True\<rparr>,
      \<lparr>round_op_type = WRITE_OP, round_hybrid_time = 71, has_append_callback = False\<rparr>]
   = Some (Error ServiceUnavailable,
       example_leader_consensus
         \<lparr>calls :=
            [HandleConsensusAppend,
             QueueAppendOperations
               [\<lparr>msg_id = \<lparr>op_term = 3, op_index = 10\<rparr>, op_type = WRITE_OP, hybrid_time = 70,
                 committed_op_id = Some \<lparr>op_term = 3, op_index = 9\<rparr>\<rparr>,
                \<lparr>msg_id = \<lparr>op_term = 3, op_index = 11\<rparr>, op_type = WRITE_OP, hybrid_time = 71,
                 committed_op_id = Some \<lparr>op_term = 3, op_index = 9\<rparr>\<rparr>],
             CancelPendingOperationCall \<lparr>op_term = 3, op_index = 11\<rparr>,
             CancelPendingOperationCall \<lparr>op_term = 3, op_index = 10\<rparr>]\<rparr>)"
proof -
  let ?rounds = "[\<lparr>round_op_type = WRITE_OP, round_hybrid_time = 70, has_append_callback = True\<rparr>,
      \<lparr>round_op_type = WRITE_OP, round_hybrid_time = 71, has_append_callback = False\<rparr>]"
  have h: "\<forall>i\<ge>next_index example_leader_consensus.
             pending_operations example_leader_consensus i = None"
    "op_index (last_committed_index example_leader_consensus)
       < next_index example_leader_consensus"
    "queue_AppendOperations example_full_queue_env
       (batch_msgs (current_term example_leader_consensus)
          (last_committed_index example_leader_consensus)
          (next_index example_leader_consensus) ?rounds) = Error ServiceUnavailable"
    by (simp_all add: example_leader_consensus_def example_full_queue_env_def)
  have f: "calls example_leader_consensus = []" "current_term example_leader_consensus = 3"
    "next_index example_leader_consensus = 10"
    "last_committed_index example_leader_consensus = \<lparr>op_term = 3, op_index = 9\<rparr>"
    by (simp_all add: example_leader_consensus_def)
  from AppendNewRoundsToQueueUnlocked_rolls_back [OF h]
  obtain c' where r: "AppendNewRoundsToQueueUnlocked example_full_queue_env
        example_leader_consensus ?rounds = Some (Error ServiceUnavailable, c')"
    and same: "c'\<lparr>calls := calls example_leader_consensus\<rparr> = example_leader_consensus"
    and cs: "calls c' = calls example_leader_consensus @ append_callbacks ?rounds
         @ [QueueAppendOperations
              (batch_msgs (current_term example_leader_consensus)
                (last_committed_index example_leader_consensus)
                (next_index example_leader_consensus) ?rounds)]
         @ map (\<lambda>m. CancelPendingOperationCall (msg_id m))
             (rev (batch_msgs (current_term example_leader_consensus)
                (last_committed_index example_leader_consensus)
                (next_index example_leader_consensus) ?rounds))"
    by blast
  have "c' = (c'\<lparr>calls := calls example_leader_consensus\<rparr>)\<lparr>calls := calls c'\<rparr>" by simp
  also have "\<dots> = example_leader_consensus\<lparr>calls := calls c'\<rparr>" by (simp only: same)
  finally have "c' = example_leader_consensus\<lparr>calls := calls c'\<rparr>" .
  with r cs f show ?thesis by (simp add: append_callbacks_def)
qed

section \<open>ReplicaState: the follower's view of the log\<close>

text \<open>Modelled from the spec: \<open>CheckOpInSequence\<close> checks that the current op id follows
  the previous one: the term is the same or higher and the index is the next one; otherwise
  the status is Corruption.\<close>

definition CheckOpInSequence :: "OpId \<Rightarrow> OpId \<Rightarrow> Status" where
  "CheckOpInSequence previous current =
     (if op_term current < op_term previous \<or> op_index current \<noteq> op_index previous + 1
      then Error Corruption else OK)"

text \<open>Modelled from the spec: \<open>IsOpCommittedOrPending\<close> is true if the op id is at or below
  the committed index, or if a pending round has the exact (term, index); otherwise it is
  false, and \<open>term_mismatch\<close> (the second component) is true iff a pending round has the
  same index with a different term.\<close>

definition IsOpCommittedOrPending :: "'a ReplicaState_scheme \<Rightarrow> OpId \<Rightarrow> bool \<times> bool" where
  "IsOpCommittedOrPending s op_id =
     (if op_index op_id \<le> op_index (last_committed_index s) then (True, False)
      else
        (case pending_operations s (op_index op_id) of
           None \<Rightarrow> (False, False)
         | Some round \<Rightarrow>
             if msg_id round = op_id then (True, False)
             else (False, op_term (msg_id round) \<noteq> op_term op_id)))"






section \<open>RaftConsensus: the follower Update path\<close>

record ConsensusRequestPB =
  caller_uuid :: string
  caller_term :: int
  preceding_id :: OpId
  ops :: "ReplicateMsg list"
  committed_index :: OpId
  propagated_hybrid_time :: "nat option"
  propagated_safe_time :: "nat option"
  leader_lease_duration_ms :: "int option"
  ht_lease_expiration :: nat

record ConsensusResponsePB =
  responder_term :: "int option"
  last_received :: "OpId option"
  last_received_current_leader :: "OpId option"
  last_committed_idx :: "int option"
  error_code :: "ConsensusErrorCode option"
  error_status :: "ErrorCode option"


text \<open>The deduplicated request (\<open>LeaderRequest\<close>).\<close>

record LeaderRequest =
  req_leader_uuid :: string
  preceding_opid :: OpId
  messages :: "ReplicateMsg list"
  first_message_idx :: int


text \<open>The loop of DeduplicateLeaderRequestUnlocked over the ops of the request, with the
  loop counter \<open>i\<close> and the running \<open>dedup_up_to_index\<close>. An op at or below the committed
  index is skipped; an op at or below \<open>dedup_up_to_index\<close> must be pending (the result is
  \<open>None\<close> where the code would use the null round) and is skipped if the pending round
  has the same op id; every other op is kept.\<close>

fun dedup_loop ::
  "'a ReplicaState_scheme \<Rightarrow> int \<Rightarrow> int \<Rightarrow> LeaderRequest \<Rightarrow> ReplicateMsg list
   \<Rightarrow> LeaderRequest option" where
  "dedup_loop s dedup_up_to_index i deduplicated_req [] = Some deduplicated_req"
| "dedup_loop s dedup_up_to_index i deduplicated_req (leader_msg # rest) =
     (if op_index (msg_id leader_msg) \<le> op_index (last_committed_index s)
      then dedup_loop s dedup_up_to_index (i + 1)
             (deduplicated_req\<lparr>preceding_opid := msg_id leader_msg\<rparr>) rest
      else if op_index (msg_id leader_msg) \<le> dedup_up_to_index
      then
        (case pending_operations s (op_index (msg_id leader_msg)) of
           None \<Rightarrow> None
         | Some round \<Rightarrow>
             if msg_id round = msg_id leader_msg
             then dedup_loop s dedup_up_to_index (i + 1)
                    (deduplicated_req\<lparr>preceding_opid := msg_id leader_msg\<rparr>) rest
             else dedup_loop s (op_index (msg_id leader_msg)) (i + 1)
                    (deduplicated_req
                       \<lparr>messages := messages deduplicated_req @ [leader_msg],
                        first_message_idx :=
                          (if first_message_idx deduplicated_req = - 1 then i
                           else first_message_idx deduplicated_req)\<rparr>) rest)
      else dedup_loop s dedup_up_to_index (i + 1)
             (deduplicated_req
                \<lparr>messages := messages deduplicated_req @ [leader_msg],
                 first_message_idx :=
                   (if first_message_idx deduplicated_req = - 1 then i
                    else first_message_idx deduplicated_req)\<rparr>) rest)"






fun check_sequence :: "OpId \<Rightarrow> ReplicateMsg list \<Rightarrow> Status" where
  "check_sequence prev [] = OK"
| "check_sequence prev (message # rest) =
     (case CheckOpInSequence prev (msg_id message) of
        OK \<Rightarrow> check_sequence (msg_id message) rest
      | Error e \<Rightarrow> Error e)"













text \<open>The op id up to which MarkOperationsAsCommittedUnlocked commits: the last op id from
  the leader if its index is below that of the request's committed index, else the
  committed index of the request.\<close>

definition apply_up_to :: "ConsensusRequestPB \<Rightarrow> OpId \<Rightarrow> OpId" where
  "apply_up_to request last_from_leader =
     (if op_index last_from_leader < op_index (committed_index request)
      then last_from_leader else committed_index request)"








section \<open>The committed op id on the Update path\<close>







subsection \<open>What the steps of UpdateReplica leave alone\<close>

















subsection \<open>The steps of an accepted update\<close>







subsection \<open>The bounds of the two commit steps\<close>

















section \<open>Replaying an update\<close>

text \<open>An op id that is in the log of the replica: IsOpCommittedOrPending says so.\<close>

definition op_known :: "'a ReplicaState_scheme \<Rightarrow> OpId \<Rightarrow> bool" where
  "op_known s op_id = fst (IsOpCommittedOrPending s op_id)"





lemma op_known_iff:
  "op_known s op_id \<longleftrightarrow>
     op_index op_id \<le> op_index (last_committed_index s)
     \<or> (\<exists>round. pending_operations s (op_index op_id) = Some round \<and> msg_id round = op_id)"
  by (auto simp: op_known_def IsOpCommittedOrPending_def split: option.splits)

lemma op_known_cong:
  "pending_operations s' = pending_operations s \<Longrightarrow>
   last_committed_index s' = last_committed_index s \<Longrightarrow> op_known s' op_id = op_known s op_id"
  by (simp add: op_known_iff)











subsection \<open>Ops in sequence\<close>

lemma check_sequence_Cons:
  "check_sequence prev (m # ms) = OK \<longleftrightarrow>
     op_term prev \<le> op_term (msg_id m) \<and> op_index (msg_id m) = op_index prev + 1
     \<and> check_sequence (msg_id m) ms = OK"
  by (auto simp: CheckOpInSequence_def split: Status.splits if_splits)

lemma check_sequence_above:
  "check_sequence prev ms = OK \<Longrightarrow> \<forall>m \<in> set ms. op_index prev < op_index (msg_id m)"
proof (induction ms arbitrary: prev)
  case Nil
  then show ?case by simp
next
  case (Cons m ms)
  from check_sequence_Cons [THEN iffD1, OF Cons.prems]
  have h: "op_index (msg_id m) = op_index prev + 1" "check_sequence (msg_id m) ms = OK"
    by simp_all
  from Cons.IH [OF h(2)] h(1) show ?case by auto
qed



subsection \<open>Deduplication\<close>

lemma dedup_loop_Cons:
  assumes "dedup_loop s up i dr (m # ms) = Some d"
  shows "(op_known s (msg_id m) \<and> op_index (msg_id m) \<le> max up (op_index (last_committed_index s))
          \<and> dedup_loop s up (i + 1) (dr\<lparr>preceding_opid := msg_id m\<rparr>) ms = Some d)
    \<or> (\<exists>up'. up' \<le> op_index (msg_id m)
          \<and> op_index (last_committed_index s) < op_index (msg_id m)
          \<and> dedup_loop s up' (i + 1)
                 (dr\<lparr>messages := messages dr @ [m],
                     first_message_idx :=
                       (if first_message_idx dr = - 1 then i else first_message_idx dr)\<rparr>)
                 ms = Some d)"
proof (cases "op_index (msg_id m) \<le> op_index (last_committed_index s)")
  case True
  with assms show ?thesis by (simp add: op_known_iff)
next
  case above: False
  show ?thesis
  proof (cases "op_index (msg_id m) \<le> up")
    case False
    with above assms show ?thesis by auto
  next
    case True
    show ?thesis
    proof (cases "pending_operations s (op_index (msg_id m))")
      case None
      with above True assms show ?thesis by simp
    next
      case (Some round)
      show ?thesis
      proof (cases "msg_id round = msg_id m")
        case True
        with above \<open>op_index (msg_id m) \<le> up\<close> Some assms show ?thesis
          by (simp add: op_known_iff)
      next
        case False
        with above True Some assms show ?thesis by auto
      qed
    qed
  qed
qed

lemma dedup_loop_facts:
  assumes "dedup_loop s up i dr msgs = Some d" and "check_sequence prev msgs = OK"
  shows "(\<exists>kept. messages d = messages dr @ kept \<and> set kept \<subseteq> set msgs)
    \<and> (preceding_opid d = preceding_opid dr \<or> (\<exists>m \<in> set msgs. preceding_opid d = msg_id m))
    \<and> (\<forall>m \<in> set msgs. m \<in> set (messages d)
          \<or> (op_known s (msg_id m) \<and> op_index (msg_id m) \<le> op_index (preceding_opid d)))
    \<and> req_leader_uuid d = req_leader_uuid dr"
  using assms
proof (induction msgs arbitrary: up i dr prev)
  case Nil
  then show ?case by simp
next
  case (Cons m ms)
  from check_sequence_Cons [THEN iffD1, OF Cons.prems(2)]
  have seq: "check_sequence (msg_id m) ms = OK" by simp
  note above = check_sequence_above [OF seq]
  from dedup_loop_Cons [OF Cons.prems(1)] show ?case
  proof (elim disjE conjE exE)
    assume known: "op_known s (msg_id m)"
      and rest: "dedup_loop s up (i + 1) (dr\<lparr>preceding_opid := msg_id m\<rparr>) ms = Some d"
    note ih = Cons.IH [OF rest seq]
    from ih have p: "preceding_opid d = msg_id m \<or> (\<exists>m' \<in> set ms. preceding_opid d = msg_id m')"
      by simp
    with above have "op_index (msg_id m) \<le> op_index (preceding_opid d)" by auto
    with ih known p show ?thesis by auto
  next
    fix up'
    assume rest: "dedup_loop s up' (i + 1)
        (dr\<lparr>messages := messages dr @ [m],
            first_message_idx :=
              (if first_message_idx dr = - 1 then i else first_message_idx dr)\<rparr>) ms = Some d"
    note ih = Cons.IH [OF rest seq]
    from ih obtain kept where k: "messages d = (messages dr @ [m]) @ kept" "set kept \<subseteq> set ms"
      by auto
    then have "messages d = messages dr @ (m # kept)" "set (m # kept) \<subseteq> set (m # ms)"
      by auto
    then have "\<exists>kept. messages d = messages dr @ kept \<and> set kept \<subseteq> set (m # ms)"
      by blast
    moreover from k have "m \<in> set (messages d)" by simp
    ultimately show ?thesis using ih by auto
  qed
qed

lemma dedup_loop_all_skipped:
  assumes "dedup_loop s up i dr msgs = Some d" and "messages d = messages dr" and "msgs \<noteq> []"
  shows "preceding_opid d = msg_id (last msgs)"
  using assms
proof (induction msgs arbitrary: up i dr)
  case Nil
  then show ?case by simp
next
  case (Cons m ms)
  have grow: "\<exists>kept. messages d' = messages dr' @ kept"
    if "dedup_loop s up' i' dr' ms' = Some d'" for up' i' dr' ms' d'
    using that
  proof (induction ms' arbitrary: up' i' dr')
    case Nil
    then show ?case by simp
  next
    case (Cons x xs)
    from dedup_loop_Cons [OF Cons.prems] Cons.IH show ?case
      by (elim disjE conjE exE) fastforce+
  qed
  from dedup_loop_Cons [OF Cons.prems(1)] show ?case
  proof (elim disjE conjE exE)
    assume rest: "dedup_loop s up (i + 1) (dr\<lparr>preceding_opid := msg_id m\<rparr>) ms = Some d"
    show ?thesis
    proof (cases "ms = []")
      case True
      with rest have "d = dr\<lparr>preceding_opid := msg_id m\<rparr>" by simp
      with True show ?thesis by simp
    next
      case False
      with Cons.IH [OF rest] Cons.prems(2) show ?thesis by simp
    qed
  next
    fix up'
    assume rest: "dedup_loop s up' (i + 1)
        (dr\<lparr>messages := messages dr @ [m],
            first_message_idx :=
              (if first_message_idx dr = - 1 then i else first_message_idx dr)\<rparr>) ms = Some d"
    from grow [OF rest] Cons.prems(2) show ?thesis by simp
  qed
qed

lemma dedup_loop_replay:
  assumes "\<forall>m \<in> set msgs. op_known s (msg_id m) \<and> op_index (msg_id m) \<le> up"
  shows "dedup_loop s up i dr msgs =
     Some (dr\<lparr>preceding_opid :=
                (if msgs = [] then preceding_opid dr else msg_id (last msgs))\<rparr>)"
  using assms
proof (induction msgs arbitrary: i dr)
  case Nil
  then show ?case by simp
next
  case (Cons m ms)
  from Cons.prems have k: "op_known s (msg_id m)" "op_index (msg_id m) \<le> up"
    and rest: "\<forall>m \<in> set ms. op_known s (msg_id m) \<and> op_index (msg_id m) \<le> up"
    by simp_all
  from k have "dedup_loop s up i dr (m # ms)
      = dedup_loop s up (i + 1) (dr\<lparr>preceding_opid := msg_id m\<rparr>) ms"
    by (auto simp: op_known_iff)
  with Cons.IH [OF rest, of "i + 1" "dr\<lparr>preceding_opid := msg_id m\<rparr>"] show ?case
    by simp
qed




subsection \<open>What an accepted update leaves behind\<close>























subsection \<open>An update that finds nothing new\<close>




lemma apply_up_to_index:
  "op_index a = op_index b \<Longrightarrow>
     op_index (apply_up_to request a) = op_index (apply_up_to request b)"
  by (simp add: apply_up_to_def)




subsection \<open>An update whose new messages are refused\<close>









end
